theory Spec2Isabelle
  imports Main "HOL-Library.AList" "HOL-Library.Monad_Syntax"
begin

section \<open>JavaScript values and \<open>deepMerge\<close>\<close>

text \<open>
  The state of the extension and the partial updates sent between its contexts are plain
  JavaScript objects. A value is \<open>undefined\<close>, \<open>null\<close>, a boolean, a number, a string, an array
  or an object, and an object is the list of its own properties in insertion order (no key
  used by the program is an array index, so this is also the order in which \<open>for ... in\<close>
  visits them). Numbers are integers: the program stores counts, tab ids and clock readings
  in milliseconds.
\<close>

datatype json =
    JUndef
  | JNull
  | JBool bool
  | JNum int
  | JStr string
  | JArr "json list"
  | JObj "(string \<times> json) list"

text \<open>
  \<open>truthy\<close> is the coercion of a value to a boolean, \<open>mergeable v\<close> the test
  \<open>v && typeof v === 'object' && !Array.isArray(v)\<close>, \<open>spread\<close> the own properties that
  \<open>{...v}\<close> copies, and \<open>prop_of\<close> the read of a property (\<open>undefined\<close> when absent).
\<close>

fun truthy :: "json \<Rightarrow> bool" where
  "truthy JUndef = False"
| "truthy JNull = False"
| "truthy (JBool b) = b"
| "truthy (JNum n) = (n \<noteq> 0)"
| "truthy (JStr s) = (s \<noteq> [])"
| "truthy (JArr xs) = True"
| "truthy (JObj kvs) = True"

fun mergeable :: "json \<Rightarrow> bool" where
  "mergeable (JObj kvs) = True"
| "mergeable v = False"

function show_nat :: "nat \<Rightarrow> string" where
  "show_nat n = (if n < 10 then [''0123456789'' ! n] else show_nat (n div 10) @ [''0123456789'' ! (n mod 10)])"
  by pat_completeness auto
termination
  by (relation "measure id") auto

definition show_int :: "int \<Rightarrow> string" where
  "show_int i = (if i < 0 then CHR ''-'' # show_nat (nat (- i)) else show_nat (nat i))"

fun indexed :: "nat \<Rightarrow> json list \<Rightarrow> (string \<times> json) list" where
  "indexed i [] = []"
| "indexed i (x # xs) = (show_nat i, x) # indexed (Suc i) xs"

fun spread :: "json \<Rightarrow> (string \<times> json) list" where
  "spread (JObj kvs) = kvs"
| "spread (JArr xs) = indexed 0 xs"
| "spread (JStr s) = indexed 0 (map (\<lambda>c. JStr [c]) s)"
| "spread v = []"

text \<open>
  A message between two contexts is copied as JSON on its way: a property whose value is
  \<open>undefined\<close> is dropped, and an \<open>undefined\<close> element of an array arrives as \<open>null\<close>.
\<close>

function serialized :: "json \<Rightarrow> json"
  and serialized_fields :: "(string \<times> json) list \<Rightarrow> (string \<times> json) list"
  and serialized_items :: "json list \<Rightarrow> json list" where
  "serialized (JObj kvs) = JObj (serialized_fields kvs)"
| "serialized (JArr xs) = JArr (serialized_items xs)"
| "serialized JUndef = JUndef"
| "serialized JNull = JNull"
| "serialized (JBool b) = JBool b"
| "serialized (JNum n) = JNum n"
| "serialized (JStr s) = JStr s"
| "serialized_fields [] = []"
| "serialized_fields ((key, v) # kvs) =
     (if v = JUndef then serialized_fields kvs else (key, serialized v) # serialized_fields kvs)"
| "serialized_items [] = []"
| "serialized_items (x # xs) = (if x = JUndef then JNull else serialized x) # serialized_items xs"
  by pat_completeness auto
termination
  by (relation "measure (\<lambda>x. case x of
        Inl v \<Rightarrow> size v
      | Inr (Inl kvs) \<Rightarrow> size_list (size_prod (\<lambda>k. 0) size) kvs
      | Inr (Inr xs) \<Rightarrow> size_list size xs)") auto

definition prop_of :: "(string \<times> json) list \<Rightarrow> string \<Rightarrow> json" where
  "prop_of kvs key = (case map_of kvs key of Some v \<Rightarrow> v | None \<Rightarrow> JUndef)"

definition or_empty :: "json \<Rightarrow> json" where
  "or_empty v = (if truthy v then v else JObj [])"

text \<open>
  \<open>deepMerge\<close> is the method of that name of \<open>StateManager\<close> and of \<open>StateStore\<close>, whose bodies
  are the same; \<open>mergeKeys\<close> is its loop over the keys of \<open>source\<close>, \<open>result\<close> being the copy of
  \<open>target\<close>. Assigning to a key keeps its place if the object has it and appends it otherwise.
  The recursion descends into \<open>source\<close>, which \<open>weight\<close> measures.
\<close>

fun weight :: "(string \<times> json) list \<Rightarrow> nat" where
  "weight [] = 0"
| "weight ((k, v) # kvs) = (if mergeable v then size v + 1 else 0) + weight kvs"

function deepMerge :: "json \<Rightarrow> json \<Rightarrow> json"
  and mergeKeys :: "(string \<times> json) list \<Rightarrow> (string \<times> json) list \<Rightarrow> (string \<times> json) list" where
  "deepMerge target source = JObj (mergeKeys (spread target) (spread source))"
| "mergeKeys result [] = result"
| "mergeKeys result ((key, v) # rest) =
     mergeKeys
       (AList.update key
          (if mergeable v then deepMerge (or_empty (prop_of result key)) v else v)
          result)
       rest"
  by pat_completeness auto


lemma weight_indexed: "weight (indexed i xs) \<le> size_list size xs"
proof (induction xs arbitrary: i)
  case Nil
  show ?case by simp
next
  case (Cons x xs)
  from Cons [of "Suc i"] show ?case by simp
qed

lemma weight_fields: "weight kvs \<le> size_list (size_prod (\<lambda>_. 0) size) kvs"
  by (induction kvs) auto

lemma weight_chars: "weight (indexed i (map (\<lambda>c. JStr [c]) s)) = 0"
  by (induction s arbitrary: i) auto

lemma weight_spread: "weight (spread v) \<le> size v"
  using weight_fields weight_indexed by (cases v) (auto simp: weight_chars le_SucI)

termination deepMerge
proof (relation "measures
    [\<lambda>x. case x of Inl (t, s) \<Rightarrow> 2 * size s + 1 | Inr (r, kvs) \<Rightarrow> 2 * weight kvs,
     \<lambda>x. case x of Inl (t, s) \<Rightarrow> 0 | Inr (r, kvs) \<Rightarrow> length kvs]", goal_cases)
  case 1
  show ?case by simp
next
  case (2 target source)
  have "weight (spread source) \<le> size source" by (rule weight_spread)
  then show ?case by simp
next
  case (3 result key v rest)
  then show ?case by simp
next
  case (4 result key v rest)
  then show ?case by simp
qed


declare deepMerge.simps [simp del]


section \<open>The process state and its partial updates\<close>

text \<open>
  The typed view of the state: the four fields that the default state of \<open>StateManager\<close> and
  of \<open>StateStore\<close> has. \<open>enc_pstate\<close> writes a typed state as the object the program holds, with
  the keys in the order of the default state; \<open>dec_pstate\<close> reads an object back, a field that
  is absent or of another type reading as its default. A key outside the four fields is not
  kept; the code modelled here writes none.
\<close>

record process_t =
  isRunning :: bool
  isPaused :: bool
  tabId :: "int option"
  startTime :: "int option"

record stats_t =
  totalReposts :: int
  processedVideos :: int
  removedVideos :: int
  skippedVideos :: int

record info_t =
  title :: string
  url :: string
  author :: string

record video_t = info_t +
  index :: int

record removed_t = video_t +
  removedAt :: int

record pstate =
  process :: process_t
  stats :: stats_t
  currentVideo :: video_t
  removedList :: "removed_t list"

definition zero_stats :: stats_t where
  "zero_stats = \<lparr>totalReposts = 0, processedVideos = 0, removedVideos = 0, skippedVideos = 0\<rparr>"

definition no_video :: video_t where
  "no_video = \<lparr>title = [], url = [], author = [], index = 0\<rparr>"

definition defaultState :: pstate where
  "defaultState =
     \<lparr>process = \<lparr>isRunning = False, isPaused = False, tabId = None, startTime = None\<rparr>,
      stats = zero_stats, currentVideo = no_video, removedList = []\<rparr>"

subsection \<open>Encoding into JavaScript objects\<close>

fun enc_opt_int :: "int option \<Rightarrow> json" where
  "enc_opt_int None = JNull"
| "enc_opt_int (Some n) = JNum n"

definition enc_process :: "process_t \<Rightarrow> json" where
  "enc_process p = JObj
     [(''isRunning'', JBool (isRunning p)), (''isPaused'', JBool (isPaused p)),
      (''tabId'', enc_opt_int (tabId p)), (''startTime'', enc_opt_int (startTime p))]"

definition enc_stats :: "stats_t \<Rightarrow> json" where
  "enc_stats s = JObj
     [(''totalReposts'', JNum (totalReposts s)), (''processedVideos'', JNum (processedVideos s)),
      (''removedVideos'', JNum (removedVideos s)), (''skippedVideos'', JNum (skippedVideos s))]"

definition enc_video :: "video_t \<Rightarrow> json" where
  "enc_video v = JObj
     [(''index'', JNum (index v)), (''title'', JStr (title v)),
      (''author'', JStr (author v)), (''url'', JStr (url v))]"

definition enc_removed :: "removed_t \<Rightarrow> json" where
  "enc_removed r = JObj
     [(''index'', JNum (index r)), (''title'', JStr (title r)), (''url'', JStr (url r)),
      (''author'', JStr (author r)), (''removedAt'', JNum (removedAt r))]"

definition enc_pstate :: "pstate \<Rightarrow> json" where
  "enc_pstate s = JObj
     [(''process'', enc_process (process s)), (''stats'', enc_stats (stats s)),
      (''currentVideo'', enc_video (currentVideo s)),
      (''removedList'', JArr (map enc_removed (removedList s)))]"

subsection \<open>Reading a JavaScript object back\<close>

definition field :: "json \<Rightarrow> string \<Rightarrow> json" where
  "field v key = prop_of (spread v) key"

fun dec_bool :: "json \<Rightarrow> bool" where
  "dec_bool (JBool b) = b"
| "dec_bool v = False"

fun dec_int :: "json \<Rightarrow> int" where
  "dec_int (JNum n) = n"
| "dec_int v = 0"

fun dec_opt_int :: "json \<Rightarrow> int option" where
  "dec_opt_int (JNum n) = Some n"
| "dec_opt_int v = None"

fun dec_str :: "json \<Rightarrow> string" where
  "dec_str (JStr s) = s"
| "dec_str v = []"

definition dec_process :: "json \<Rightarrow> process_t" where
  "dec_process v =
     \<lparr>isRunning = dec_bool (field v ''isRunning''), isPaused = dec_bool (field v ''isPaused''),
      tabId = dec_opt_int (field v ''tabId''), startTime = dec_opt_int (field v ''startTime'')\<rparr>"

definition dec_stats :: "json \<Rightarrow> stats_t" where
  "dec_stats v =
     \<lparr>totalReposts = dec_int (field v ''totalReposts''),
      processedVideos = dec_int (field v ''processedVideos''),
      removedVideos = dec_int (field v ''removedVideos''),
      skippedVideos = dec_int (field v ''skippedVideos'')\<rparr>"

definition dec_video :: "json \<Rightarrow> video_t" where
  "dec_video v =
     \<lparr>title = dec_str (field v ''title''), url = dec_str (field v ''url''),
      author = dec_str (field v ''author''), index = dec_int (field v ''index'')\<rparr>"

definition dec_removed :: "json \<Rightarrow> removed_t" where
  "dec_removed v =
     \<lparr>title = dec_str (field v ''title''), url = dec_str (field v ''url''),
      author = dec_str (field v ''author''), index = dec_int (field v ''index''),
      removedAt = dec_int (field v ''removedAt'')\<rparr>"

fun dec_list :: "json \<Rightarrow> removed_t list" where
  "dec_list (JArr xs) = map dec_removed xs"
| "dec_list v = []"

definition dec_pstate :: "json \<Rightarrow> pstate" where
  "dec_pstate v =
     \<lparr>process = dec_process (field v ''process''), stats = dec_stats (field v ''stats''),
      currentVideo = dec_video (field v ''currentVideo''),
      removedList = dec_list (field v ''removedList'')\<rparr>"

text \<open>The typed state after \<open>deepMerge\<close> of an update into it.\<close>

definition merged :: "pstate \<Rightarrow> json \<Rightarrow> pstate" where
  "merged s u = dec_pstate (deepMerge (enc_pstate s) u)"

section \<open>Messages between the contexts\<close>

text \<open>
  \<open>cmsg\<close> are the messages a content script sends to the runtime, \<open>bmsg\<close> the ones the
  background sends. Of a message its type and the fields of its payload that some context
  reads are kept; message ids, sender names and the timestamp of the envelope are left out.
\<close>

record status_t =
  status :: string
  statusKey :: "string option"
  statusParams :: "(string \<times> int) list"

record duration_t =
  total :: int
  minutes :: int
  seconds :: int

datatype progress_extra =
    Scrolling string status_t
  | Video info_t

datatype cmsg =
    GET_STATE
  | UPDATE_STATE json
  | RESET_STATE
  | STATUS_UPDATE status_t
  | UPDATE_PROGRESS int int progress_extra
  | VIDEO_REMOVED video_t
  | VIDEO_SKIPPED video_t string
  | ERROR string string
  | COMPLETE int int duration_t
  | NO_REPOSTS_FOUND duration_t
  | UI_WAIT_TIMEOUT string int string

datatype dest = Runtime | Tab int

datatype bmsg =
    STATE_CHANGED pstate
  | TAB_CLOSED int stats_t bool

section \<open>The background context: StateManager\<close>

text \<open>
  The background holds the canonical state (\<open>sm_state\<close>), what it has persisted (\<open>stored\<close>: the
  stats and the removed list, as \<open>saveToStorage\<close> writes them) and the messages it has sent
  (\<open>outbox\<close>), each with its destination and the moment of sending. The argument \<open>now\<close> of a
  function is the reading of \<open>Date.now()\<close> when it runs. \<open>tabs_of\<close> is the test
  \<open>if (this.state.process.tabId)\<close>: a tab id that is \<open>null\<close> or 0 names no tab.
\<close>

record bg_t =
  sm_state :: pstate
  stored :: "(stats_t \<times> removed_t list) option"
  outbox :: "(dest \<times> bmsg \<times> int) list"

definition saveToStorage :: "bg_t \<Rightarrow> bg_t" where
  "saveToStorage b = b\<lparr>stored := Some (stats (sm_state b), removedList (sm_state b))\<rparr>"

definition tabs_of :: "int option \<Rightarrow> int list" where
  "tabs_of t = (case t of None \<Rightarrow> [] | Some n \<Rightarrow> (if n \<noteq> 0 then [n] else []))"

definition broadcastState :: "int \<Rightarrow> bg_t \<Rightarrow> bg_t" where
  "broadcastState now b =
     (let message = (STATE_CHANGED (sm_state b), now)
      in b\<lparr>outbox := outbox b @ (Runtime, message) #
           map (\<lambda>n. (Tab n, message)) (tabs_of (tabId (process (sm_state b))))\<rparr>)"

definition updateState :: "int \<Rightarrow> json \<Rightarrow> bg_t \<Rightarrow> bg_t" where
  "updateState now updates b =
     broadcastState now
       (b\<lparr>sm_state := dec_pstate (deepMerge (enc_pstate (sm_state b)) updates)\<rparr>)"

definition resetProcess :: "int \<Rightarrow> bool \<Rightarrow> bg_t \<Rightarrow> bg_t" where
  "resetProcess now keepTabId b =
     (let updates_process =
            [(''isRunning'', JBool False), (''isPaused'', JBool False), (''startTime'', JNull)];
          updates_currentVideo = enc_video no_video;
          updates_process' =
            (if \<not> keepTabId then updates_process @ [(''tabId'', JNull)] else updates_process)
      in updateState now
           (JObj [(''process'', JObj updates_process'), (''currentVideo'', updates_currentVideo)]) b)"

definition resetProcessKeepStats :: "int \<Rightarrow> bg_t \<Rightarrow> bg_t" where
  "resetProcessKeepStats now b =
     (let updates = JObj
        [(''process'', JObj
            [(''isRunning'', JBool False), (''isPaused'', JBool False), (''tabId'', JNull),
             (''startTime'', enc_opt_int (startTime (process (sm_state b))))]),
         (''currentVideo'', enc_video no_video)]
      in saveToStorage (updateState now updates b))"

definition tabs_onRemoved :: "int \<Rightarrow> int \<Rightarrow> bg_t \<Rightarrow> bg_t" where
  "tabs_onRemoved now closed b =
     (if Some closed = tabId (process (sm_state b)) then
        (let b1 = resetProcessKeepStats now b
         in b1\<lparr>outbox := outbox b1 @
              [(Runtime,
                TAB_CLOSED closed (stats (sm_state b1)) (removedVideos (stats (sm_state b1)) > 0),
                now)]\<rparr>)
      else b)"

definition not_running :: json where
  "not_running = JObj [(''process'', JObj [(''isRunning'', JBool False), (''isPaused'', JBool False)])]"

fun handleContentMessage :: "int \<Rightarrow> cmsg \<Rightarrow> bg_t \<Rightarrow> bg_t" where
  "handleContentMessage now (UPDATE_PROGRESS cur tot x) b =
     updateState now
       (JObj [(''stats'', JObj [(''processedVideos'', JNum cur), (''totalReposts'', JNum tot)])]) b"
| "handleContentMessage now (VIDEO_REMOVED payload) b =
     (let currentStats = stats (sm_state b)
      in updateState now
           (JObj
              [(''stats'', JObj [(''removedVideos'', JNum (removedVideos currentStats + 1))]),
               (''removedList'', JArr (map enc_removed (removedList (sm_state b)) @
                  [enc_removed
                    \<lparr>title = title payload, url = url payload, author = author payload,
                     index = index payload, removedAt = now\<rparr>]))]) b)"
| "handleContentMessage now (COMPLETE r t d) b = saveToStorage (updateState now not_running b)"
| "handleContentMessage now (ERROR m e) b = saveToStorage (updateState now not_running b)"
| "handleContentMessage now (NO_REPOSTS_FOUND d) b = saveToStorage (updateState now not_running b)"
| "handleContentMessage now m b = b"

text \<open>
  The listener of the background for the messages of a content script. \<open>sender_tab\<close> is
  \<open>sender.tab\<close>; a message type the listener does not know (\<open>UI_WAIT_TIMEOUT\<close>) gets no
  response.
\<close>

datatype response = Result pstate | Success | NoResponse

fun runtime_onMessage :: "int \<Rightarrow> int option \<Rightarrow> cmsg \<Rightarrow> bg_t \<Rightarrow> bg_t \<times> response" where
  "runtime_onMessage now sender_tab GET_STATE b = (b, Result (sm_state b))"
| "runtime_onMessage now sender_tab (UPDATE_STATE payload) b = (updateState now payload b, Success)"
| "runtime_onMessage now sender_tab RESET_STATE b = (resetProcess now False b, Success)"
| "runtime_onMessage now sender_tab (UI_WAIT_TIMEOUT k t u) b = (b, NoResponse)"
| "runtime_onMessage now sender_tab m b =
     ((if sender_tab \<noteq> None then handleContentMessage now m b else b), Success)"

section \<open>The content script: page, clock and StateStore\<close>

text \<open>
  A \<open>world\<close> is the content script of one tab together with what it talks to: the cache of
  its \<open>StateStore\<close> (\<open>ss_state\<close>), the background, whether the background answers
  (\<open>reachable\<close>), the id of the tab, the protocol of the page, the clock, the page as a function
  of time (\<open>page_at\<close>: what the document shows at each moment, which the script does not
  decide), the stored quota snapshot, the values that \<open>Math.random\<close> returns (\<open>rnd\<close>, of which
  \<open>drawn\<close> have been taken), the messages sent and the clicks and key events dispatched, each
  with its time, the border overlay (absent, hidden or shown) and whether the class
  \<open>window.MessageBus\<close> is defined. Of a page only what the workflow reads is kept: which selector keys match, the number
  of video containers, the height of the document, the three tests of the repost button, the
  state of the next button, the video information, whether a tab is found by its text, and the
  address.

  Waiting on a timer is \<open>sleep\<close>, which advances the clock, and nothing else takes time: the
  background handles a message at the moment it is sent, and a \<open>STATE_CHANGED\<close> that it
  pushes to this tab replaces the cache before the sender goes on. While the script runs,
  nothing else writes to the canonical state, except where a command is applied explicitly.
\<close>

record quota_t =
  remaining :: "int option"
  daily_limit :: int
  is_premium :: bool

record page =
  present :: "string \<Rightarrow> bool"
  containers :: nat
  scrollHeight :: int
  pressed :: bool
  activeColor :: bool
  filledIcon :: bool
  nextDisabled :: bool
  videoInfo :: info_t
  repostsByText :: bool
  href :: string

datatype action = Click string | Escape

record world =
  ss_state :: pstate
  background :: bg_t
  reachable :: bool
  myTab :: int
  protocol :: string
  clock :: int
  page_at :: "int \<Rightarrow> page"
  quotaInfo :: "quota_t option"
  rnd :: "nat \<Rightarrow> nat"
  drawn :: nat
  sent :: "(cmsg \<times> int) list"
  actions :: "(action \<times> int) list"
  border :: "bool option"
  messageBus :: bool

definition sleep :: "int \<Rightarrow> world \<Rightarrow> world" where
  "sleep ms w = w\<lparr>clock := clock w + ms\<rparr>"

definition page_now :: "world \<Rightarrow> page" where
  "page_now w = page_at w (clock w)"

definition random_below :: "nat \<Rightarrow> world \<Rightarrow> nat \<times> world" where
  "random_below n w = (rnd w (drawn w) mod n, w\<lparr>drawn := Suc (drawn w)\<rparr>)"

fun stateStore_onMessage :: "dest \<times> bmsg \<times> int \<Rightarrow> world \<Rightarrow> world" where
  "stateStore_onMessage (Tab n, STATE_CHANGED payload, t) w =
     (if n = myTab w then w\<lparr>ss_state := payload\<rparr> else w)"
| "stateStore_onMessage m w = w"

text \<open>
  What the background receives of a message: the payload of \<open>UPDATE_STATE\<close> is an object the
  caller has built, which is copied as JSON; the payloads of the other messages are made of
  numbers and strings that are always defined.
\<close>

fun on_the_wire :: "cmsg \<Rightarrow> cmsg" where
  "on_the_wire (UPDATE_STATE u) = UPDATE_STATE (serialized u)"
| "on_the_wire m = m"

definition runtime_sendMessage :: "cmsg \<Rightarrow> world \<Rightarrow> response \<times> world" where
  "runtime_sendMessage m w =
     (let w1 = w\<lparr>sent := sent w @ [(m, clock w)]\<rparr>
      in if reachable w then
           (let (b', r) =
                  runtime_onMessage (clock w) (Some (myTab w)) (on_the_wire m) (background w);
                pushes = drop (length (outbox (background w))) (outbox b')
            in (r, fold stateStore_onMessage pushes (w1\<lparr>background := b'\<rparr>)))
         else (NoResponse, w1))"

text \<open>
  \<open>StateStore\<close>. \<open>sendToBackground\<close> resolves to the \<open>result\<close> of the response, which only the
  answer to \<open>GET_STATE\<close> has. \<open>getState\<close> asks the background only when \<open>forceRefresh\<close> is
  passed as true, and returns the cache. \<open>set_path\<close> is the method \<open>set\<close>, \<open>set_updates\<close> the nested
  object it builds from a dotted path.
\<close>

definition sendToBackground :: "cmsg \<Rightarrow> world \<Rightarrow> pstate option \<times> world" where
  "sendToBackground m w =
     (case runtime_sendMessage m w of
        (Result s, w') \<Rightarrow> (Some s, w')
      | (r, w') \<Rightarrow> (None, w'))"

definition isContentScript :: "world \<Rightarrow> bool" where
  "isContentScript w = (protocol w \<noteq> ''chrome-extension:'')"

definition getState :: "bool \<Rightarrow> world \<Rightarrow> pstate \<times> world" where
  "getState forceRefresh w =
     (let w1 = (if forceRefresh \<and> isContentScript w then
                  (case sendToBackground GET_STATE w of
                     (Some response, w') \<Rightarrow> w'\<lparr>ss_state := response\<rparr>
                   | (None, w') \<Rightarrow> w')
                else w)
      in (ss_state w1, w1))"

definition update :: "json \<Rightarrow> world \<Rightarrow> world" where
  "update updates w =
     snd (sendToBackground (UPDATE_STATE updates)
       (w\<lparr>ss_state := dec_pstate (deepMerge (enc_pstate (ss_state w)) updates)\<rparr>))"

fun split_dot :: "string \<Rightarrow> string list" where
  "split_dot [] = [[]]"
| "split_dot (c # cs) =
     (if c = CHR ''.'' then [] # split_dot cs
      else (case split_dot cs of [] \<Rightarrow> [[c]] | x # xs \<Rightarrow> (c # x) # xs))"

definition set_updates :: "string \<Rightarrow> json \<Rightarrow> json" where
  "set_updates path v =
     (let keys = split_dot path; lastKey = last keys
      in foldr (\<lambda>key acc. JObj [(key, acc)]) (butlast keys) (JObj [(lastKey, v)]))"

definition set_path :: "string \<Rightarrow> json \<Rightarrow> world \<Rightarrow> world" where
  "set_path path v w = update (set_updates path v) w"

definition startProcess :: "json \<Rightarrow> world \<Rightarrow> world" where
  "startProcess tab w =
     (let updates_process =
            [(''isRunning'', JBool True), (''isPaused'', JBool False), (''startTime'', JNum (clock w))];
          updates_process' =
            (if tab \<noteq> JUndef then updates_process @ [(''tabId'', tab)] else updates_process)
      in update (JObj [(''process'', JObj updates_process'), (''stats'', enc_stats zero_stats),
                       (''removedList'', JArr [])]) w)"

definition stopProcess :: "world \<Rightarrow> world" where
  "stopProcess w =
     update (JObj [(''process'', JObj
       [(''isRunning'', JBool False), (''isPaused'', JBool False), (''tabId'', JNull),
        (''startTime'', JNull)])]) w"

definition setPaused :: "bool \<Rightarrow> world \<Rightarrow> world" where
  "setPaused b w = set_path ''process.isPaused'' (JBool b) w"

definition incrementRemoved :: "video_t option \<Rightarrow> world \<Rightarrow> world" where
  "incrementRemoved vinfo w =
     (let (state, w1) = getState False w;
          updates = [(''stats'', JObj [(''removedVideos'', JNum (removedVideos (stats state) + 1))])];
          updates' = (case vinfo of
              None \<Rightarrow> updates
            | Some v \<Rightarrow> updates @
                [(''removedList'', JArr (map enc_removed (removedList state) @
                   [enc_removed \<lparr>title = title v, url = url v, author = author v, index = index v,
                      removedAt = clock w1\<rparr>]))])
      in update (JObj updates') w1)"

definition incrementProcessed :: "world \<Rightarrow> world" where
  "incrementProcessed w =
     (let (state, w1) = getState False w
      in set_path ''stats.processedVideos'' (JNum (processedVideos (stats state) + 1)) w1)"

definition setTotal :: "int \<Rightarrow> world \<Rightarrow> world" where
  "setTotal n w = set_path ''stats.totalReposts'' (JNum n) w"

definition setCurrentVideo :: "video_t \<Rightarrow> world \<Rightarrow> world" where
  "setCurrentVideo v w = update (JObj [(''currentVideo'', enc_video v)]) w"

definition reset :: "world \<Rightarrow> world" where
  "reset w = snd (sendToBackground RESET_STATE (w\<lparr>ss_state := defaultState\<rparr>))"

definition js_rem :: "int \<Rightarrow> int \<Rightarrow> int" where
  "js_rem a b = (if a < 0 then - ((- a) mod \<bar>b\<bar>) else a mod \<bar>b\<bar>)"

definition getDuration :: "world \<Rightarrow> duration_t \<times> world" where
  "getDuration w =
     (let (state, w1) = getState False w
      in case startTime (process state) of
           None \<Rightarrow> (\<lparr>total = 0, minutes = 0, seconds = 0\<rparr>, w1)
         | Some t0 \<Rightarrow>
             if t0 = 0 then (\<lparr>total = 0, minutes = 0, seconds = 0\<rparr>, w1)
             else (let totalDuration = clock w1 - t0
                   in (\<lparr>total = totalDuration, minutes = totalDuration div 60000,
                        seconds = js_rem totalDuration 60000 div 1000\<rparr>, w1)))"

definition broadcast :: "cmsg \<Rightarrow> world \<Rightarrow> world" where
  "broadcast m w = snd (runtime_sendMessage m w)"

section \<open>UIManager: waiting for elements and scrolling\<close>

text \<open>
  \<open>waitForElement\<close> looks for the element at once and then every 200 ms; \<open>wait_check\<close> is its
  loop, \<open>endTime\<close> the moment computed on entry. When the time is over it sends one
  \<open>UI_WAIT_TIMEOUT\<close> with the key, the timeout and the address of the page, if a message bus
  exists, and returns \<open>null\<close> (here \<open>False\<close>; an element that is found is \<open>True\<close>, and the caller
  reads what it needs of the element from the page).
\<close>

function wait_check :: "string \<Rightarrow> int \<Rightarrow> int \<Rightarrow> world \<Rightarrow> bool \<times> world" where
  "wait_check selectorKey timeout endTime w =
     (if present (page_now w) selectorKey then (True, w)
      else if clock w > endTime then
        (False,
         (if messageBus w
          then snd (runtime_sendMessage
                 (UI_WAIT_TIMEOUT selectorKey timeout (href (page_now w))) w)
          else w))
      else wait_check selectorKey timeout endTime (sleep 200 w))"
  by pat_completeness auto
termination
  by (relation "measure (\<lambda>(k, t, e, w). nat (e + 1 - clock w))") (auto simp: sleep_def)

declare wait_check.simps [simp del]

definition waitForElement :: "string \<Rightarrow> int \<Rightarrow> world \<Rightarrow> bool \<times> world" where
  "waitForElement selectorKey timeout w = wait_check selectorKey timeout (clock w + timeout) w"

definition timed_out :: "string \<Rightarrow> int \<Rightarrow> int \<Rightarrow> world \<Rightarrow> world" where
  "timed_out key timeout c w =
     w\<lparr>clock := c, sent := sent w @ [(UI_WAIT_TIMEOUT key timeout (href (page_at w c)), c)]\<rparr>"

definition click_element :: "string \<Rightarrow> world \<Rightarrow> world" where
  "click_element selectorKey w = w\<lparr>actions := actions w @ [(Click selectorKey, clock w)]\<rparr>"

definition click :: "string \<Rightarrow> int \<Rightarrow> world \<Rightarrow> bool \<times> world" where
  "click selectorKey timeout w =
     (case waitForElement selectorKey timeout w of
        (True, w') \<Rightarrow> (True, click_element selectorKey w')
      | (False, w') \<Rightarrow> (False, w'))"

text \<open>
  \<open>autoScrollToBottom\<close>. \<open>scroll_t\<close> holds the local variables of the promise, \<open>scroll_poll\<close> is
  one run of the interval callback (the scroll calls themselves are left out, the page being
  given as a function of time), \<open>finalize\<close> the function of that name, and \<open>scroll_ticks\<close> the
  sequence of polls, one every 800 ms, up to the timeout. The timeout of 300000 ms falls due
  together with the 375th poll; the timeout, due at that moment since the start, is taken to
  run first, so 374 polls come before it. \<open>scroll_run\<close> also says how the scroll ended;
  \<open>maxItems = None\<close> is \<open>Infinity\<close>.
\<close>

record scroll_t =
  lastItemsCount :: nat
  lastHeight :: int
  noChangeCount :: nat
  firstProgressReported :: bool

datatype scroll_end = ReachedMax | Stable | TimedOut

definition POLL_INTERVAL :: int where
  "POLL_INTERVAL = 800"

definition SCROLL_TIMEOUT :: int where
  "SCROLL_TIMEOUT = 300000"

definition maxNoChangeCount :: "int option \<Rightarrow> nat" where
  "maxNoChangeCount cappedMax = (case cappedMax of None \<Rightarrow> 3 | Some m \<Rightarrow> (if m > 200 then 6 else 3))"

definition reached_max :: "int option \<Rightarrow> nat \<Rightarrow> bool" where
  "reached_max cappedMax currentCount =
     (case cappedMax of None \<Rightarrow> False | Some m \<Rightarrow> int currentCount \<ge> m + 10)"

definition finalize :: "(nat \<Rightarrow> bool \<Rightarrow> world \<Rightarrow> world) \<Rightarrow> world \<Rightarrow> nat \<times> world" where
  "finalize onProgress w =
     (let finalItems = containers (page_now w) in (finalItems, onProgress finalItems True w))"

definition scroll_poll ::
  "(nat \<Rightarrow> bool \<Rightarrow> world \<Rightarrow> world) \<Rightarrow> int option \<Rightarrow> scroll_t \<Rightarrow> world
     \<Rightarrow> scroll_end option \<times> scroll_t \<times> world" where
  "scroll_poll onProgress cappedMax st w =
     (let (jitter, w0) = random_below 101 w;
          currentCount = containers (page_now w0);
          (st1, w1) = (if \<not> firstProgressReported st
                       then (st\<lparr>firstProgressReported := True\<rparr>, onProgress currentCount False w0)
                       else (st, w0));
          (st2, w2) = (if currentCount > lastItemsCount st1
                       then (st1\<lparr>lastItemsCount := currentCount, noChangeCount := 0\<rparr>,
                             onProgress currentCount False w1)
                       else (st1\<lparr>noChangeCount := noChangeCount st1 + 1\<rparr>, w1))
      in if reached_max cappedMax currentCount then (Some ReachedMax, st2, w2)
         else
           (let currentHeight = scrollHeight (page_now w2);
                st3 = (if currentHeight \<noteq> lastHeight st2
                       then st2\<lparr>lastHeight := currentHeight, noChangeCount := 0\<rparr>
                       else st2)
            in if noChangeCount st3 \<ge> maxNoChangeCount cappedMax then (Some Stable, st3, w2)
               else (None, st3, w2)))"

fun scroll_ticks ::
  "nat \<Rightarrow> (nat \<Rightarrow> bool \<Rightarrow> world \<Rightarrow> world) \<Rightarrow> int option \<Rightarrow> scroll_t \<Rightarrow> world
     \<Rightarrow> scroll_end \<times> nat \<times> world" where
  "scroll_ticks 0 onProgress cappedMax st w =
     (let (n, w') = finalize onProgress (sleep POLL_INTERVAL w) in (TimedOut, n, w'))"
| "scroll_ticks (Suc k) onProgress cappedMax st w =
     (case scroll_poll onProgress cappedMax st (sleep POLL_INTERVAL w) of
        (Some r, st', w') \<Rightarrow> (let (n, w'') = finalize onProgress w' in (r, n, w''))
      | (None, st', w') \<Rightarrow> scroll_ticks k onProgress cappedMax st' w')"

definition polls_before_timeout :: nat where
  "polls_before_timeout = nat ((SCROLL_TIMEOUT - 1) div POLL_INTERVAL)"

definition scroll_run ::
  "(nat \<Rightarrow> bool \<Rightarrow> world \<Rightarrow> world) \<Rightarrow> int option \<Rightarrow> world \<Rightarrow> scroll_end \<times> nat \<times> world" where
  "scroll_run onProgress maxItems w =
     scroll_ticks polls_before_timeout onProgress maxItems
       \<lparr>lastItemsCount = 0, lastHeight = 0, noChangeCount = 0, firstProgressReported = False\<rparr> w"

definition autoScrollToBottom ::
  "(nat \<Rightarrow> bool \<Rightarrow> world \<Rightarrow> world) \<Rightarrow> int option \<Rightarrow> world \<Rightarrow> nat \<times> world" where
  "autoScrollToBottom onProgress maxItems w = snd (scroll_run onProgress maxItems w)"







definition enough :: "int option \<Rightarrow> nat \<Rightarrow> bool" where
  "enough maxItems c = (case maxItems of None \<Rightarrow> False | Some m \<Rightarrow> m + 10 \<le> int c)"



section \<open>WorkflowManager\<close>

text \<open>
  A method of the workflow is a function on worlds. A method that may wait for ever (the pause
  check waits as long as the cache says paused and running) returns an option, \<open>None\<close> meaning
  that it does not return. \<open>js_or a b\<close> is \<open>a || b\<close> on numbers, \<open>remaining_or q d\<close> is
  \<open>q.remaining || d\<close>, and \<open>maxRemoval\<close> the constant of that name in
  \<open>step_processVideoQueue\<close>. The quota snapshot is used when its \<open>remaining\<close> is a number.
\<close>

definition batchSize :: int where
  "batchSize = 100"

definition UNLIMITED :: int where
  "UNLIMITED = 9007199254740991"

definition getQuotaInfo :: "world \<Rightarrow> quota_t" where
  "getQuotaInfo w =
     (case quotaInfo w of
        Some q \<Rightarrow> (case remaining q of
            Some n \<Rightarrow> q
          | None \<Rightarrow> \<lparr>remaining = Some UNLIMITED, daily_limit = UNLIMITED, is_premium = True\<rparr>)
      | None \<Rightarrow> \<lparr>remaining = Some UNLIMITED, daily_limit = UNLIMITED, is_premium = True\<rparr>)"

definition js_or :: "int \<Rightarrow> int \<Rightarrow> int" where
  "js_or a b = (if a \<noteq> 0 then a else b)"

definition remaining_or :: "quota_t \<Rightarrow> int \<Rightarrow> int" where
  "remaining_or q d = (case remaining q of None \<Rightarrow> d | Some n \<Rightarrow> js_or n d)"

definition maxRemoval :: "world \<Rightarrow> int" where
  "maxRemoval w = remaining_or (getQuotaInfo w) 100"

definition getRandomDelay :: "int \<Rightarrow> int \<Rightarrow> world \<Rightarrow> int \<times> world" where
  "getRandomDelay lo hi w =
     (let (r, w') = random_below (nat (hi - lo + 1)) w in (int r + lo, w'))"

definition getVideoInfo :: "world \<Rightarrow> info_t" where
  "getVideoInfo w = videoInfo (page_now w)"

definition isVideoReposted :: "world \<Rightarrow> bool" where
  "isVideoReposted w =
     (let isPressed = pressed (page_now w);
          hasActiveColor = activeColor (page_now w);
          hasFilledIcon = filledIcon (page_now w)
      in isPressed \<or> hasActiveColor \<or> hasFilledIcon)"

definition border_create :: "world \<Rightarrow> world" where
  "border_create w = (case border w of None \<Rightarrow> w | Some shown \<Rightarrow> w\<lparr>border := Some True\<rparr>)"

definition border_remove :: "world \<Rightarrow> world" where
  "border_remove w = (case border w of None \<Rightarrow> w | Some shown \<Rightarrow> w\<lparr>border := Some False\<rparr>)"

definition status_msg :: "string \<Rightarrow> string \<Rightarrow> (string \<times> int) list \<Rightarrow> cmsg" where
  "status_msg text k params = STATUS_UPDATE \<lparr>status = text, statusKey = Some k, statusParams = params\<rparr>"

partial_function (option) checkPauseState :: "world \<Rightarrow> world option" where
  "checkPauseState w =
     (let (state, w1) = getState False w
      in if \<not> isPaused (process state) \<or> \<not> isRunning (process state) then Some w1
         else checkPauseState (sleep 500 w1))"

partial_function (option) pausableSleep_from :: "int \<Rightarrow> int \<Rightarrow> world \<Rightarrow> world option" where
  "pausableSleep_from ms elapsed w =
     (if elapsed < ms then
        do {
          w1 \<leftarrow> checkPauseState w;
          let (state, w2) = getState False w1;
          if \<not> isRunning (process state) then Some w2
          else pausableSleep_from ms (elapsed + 100) (sleep 100 w2)
        }
      else Some w)"

definition pausableSleep :: "int \<Rightarrow> world \<Rightarrow> world option" where
  "pausableSleep ms w = pausableSleep_from ms 0 w"

definition handleError :: "string \<Rightarrow> string \<Rightarrow> world \<Rightarrow> world" where
  "handleError message err w = broadcast (ERROR message err) (border_remove (stopProcess w))"

definition finishProcess :: "world \<Rightarrow> world" where
  "finishProcess w =
     (let (state, w1) = getState False w;
          (duration, w2) = getDuration w1;
          w3 = border_remove (stopProcess w2)
      in broadcast (COMPLETE (removedVideos (stats state)) (totalReposts (stats state)) duration) w3)"

definition step_navigateToProfile :: "world \<Rightarrow> bool \<times> world" where
  "step_navigateToProfile w =
     (let w1 = broadcast (status_msg ''Navigating to your profile...'' ''statusNavigatingProfile'' []) w;
          (repostTab, w2) = waitForElement ''navigation.repostTab'' 2000 w1
      in if repostTab then (True, w2)
         else
           (let (profileButton, w3) = waitForElement ''navigation.profileButton'' 5000 w2
            in if \<not> profileButton then
                 (False, handleError
                    ''Cannot find profile button. Please make sure you're on TikTok.com and logged in.''
                    [] w3)
               else
                 (let w4 = click_element ''navigation.profileButton'' w3;
                      (repostTabAfterNav, w5) = waitForElement ''navigation.repostTab'' 7000 w4
                  in if \<not> repostTabAfterNav then
                       (False, handleError ''Failed to navigate to profile page. Please try again.'' [] w5)
                     else (True, w5))))"

definition step_navigateToRepostsTab :: "world \<Rightarrow> bool \<times> world" where
  "step_navigateToRepostsTab w =
     (let w1 = broadcast (status_msg ''Navigating to Reposts tab...'' ''statusNavigateToRepostsTab'' []) w;
          (found, w2) = waitForElement ''navigation.repostTab'' 10000 w1;
          repostTab = (if found then Some ''navigation.repostTab''
                       else if repostsByText (page_now w2) then Some ''navigation.repostTabFallback''
                       else None)
      in case repostTab of
           Some k \<Rightarrow>
             (let w3 = click_element k w2;
                  (c, w4) = waitForElement ''video.containers'' 15000 w3
              in (True, broadcast (status_msg ''On reposts tab, showing results.'' ''statusOnRepostsTab'' []) w4))
         | None \<Rightarrow>
             (False, broadcast (status_msg ''Could not find Reposts tab.'' ''statusCouldNotFindRepostsTab'' []) w2))"

definition progress_msg :: "int \<Rightarrow> string \<Rightarrow> nat \<Rightarrow> bool \<Rightarrow> cmsg" where
  "progress_msg cur ph progress isFinal =
     UPDATE_PROGRESS cur (int progress)
       (Scrolling (if isFinal then ''final'' else ph)
          \<lparr>status = ''Loaded '' @ show_nat progress @ '' reposts so far...'',
           statusKey = Some ''statusLoadedSoFar'', statusParams = [(''count'', int progress)]\<rparr>)"

definition progress_callback :: "int \<Rightarrow> string \<Rightarrow> nat \<Rightarrow> bool \<Rightarrow> world \<Rightarrow> world" where
  "progress_callback cur ph = (\<lambda>progress isFinal. broadcast (progress_msg cur ph progress isFinal))"

definition step_switchToRepostsTabAndScroll :: "world \<Rightarrow> bool \<times> world" where
  "step_switchToRepostsTabAndScroll w =
     (let w1 = broadcast (status_msg ''Looking for Reposts tab...'' ''statusLookingForRepostsTab'' []) w;
          (ok, w2) = step_navigateToRepostsTab w1
      in if \<not> ok then (False, handleError ''Could not find or click the 'Reposts' tab.'' [] w2)
         else
           (let quota = getQuotaInfo w2;
                maxItems = (case remaining quota of
                    None \<Rightarrow> Some batchSize
                  | Some quotaRemaining \<Rightarrow> Some (min quotaRemaining batchSize));
                w3 = broadcast (status_msg ''Scrolling to load initial reposts ...'' ''statusScrolling'' []) w2;
                (totalFound, w4) =
                  autoScrollToBottom (progress_callback 0 ''first'') maxItems w3;
                w5 = setTotal (int totalFound) w4;
                (state, w6) = getState False w5
            in (True, broadcast
                  (status_msg (''Found '' @ show_int (totalReposts (stats state)) @ '' reposts.'')
                     ''statusFoundTotal'' [(''total'', totalReposts (stats state))]) w6)))"

definition step_openFirstVideo :: "world \<Rightarrow> bool \<times> world" where
  "step_openFirstVideo w =
     (let w1 = broadcast (status_msg ''Opening the first repost...'' ''statusOpeningFirstRepost'' []) w;
          (success, w2) = click ''video.containers'' 15000 w1
      in if \<not> success then
           (False, handleError ''No reposted videos found on the page to click.'' [] w2)
         else (True, snd (waitForElement ''video.repostButton'' 7000 w2)))"

text \<open>
  The loop of \<open>step_processVideoQueue\<close>, with its local variables \<open>currentIndex\<close> and
  \<open>removedCount\<close> as arguments. It is left in three ways: the state read at the top of an
  iteration is not running, the removed count has reached the cap, or there is no enabled next
  button. \<open>load_next_batch\<close> is the scroll for further items when the index has reached the
  loaded total.
\<close>

datatype loop_exit = Stopped | LimitReached | EndOfList

definition with_index :: "info_t \<Rightarrow> int \<Rightarrow> video_t" where
  "with_index v i = \<lparr>title = title v, url = url v, author = author v, index = i\<rparr>"

definition load_next_batch :: "int \<Rightarrow> pstate \<Rightarrow> world \<Rightarrow> world" where
  "load_next_batch currentIndex state w =
     (let target = js_or (totalReposts (stats state)) 0 + batchSize;
          (newlyFound, w1) =
            autoScrollToBottom (progress_callback currentIndex ''batch'') (Some target) w
      in if newlyFound \<noteq> 0 \<and> int newlyFound > js_or (totalReposts (stats state)) 0
         then setTotal (int newlyFound) w1
         else w1)"

partial_function (option) processVideoQueue_loop ::
  "int \<Rightarrow> int \<Rightarrow> int \<Rightarrow> world \<Rightarrow> (loop_exit \<times> int \<times> world) option" where
  "processVideoQueue_loop currentIndex removedCount maxRem w =
     do {
       w1 \<leftarrow> checkPauseState w;
       let (state, w2) = getState False w1;
       if \<not> isRunning (process state) then Some (Stopped, removedCount, w2)
       else do {
         let w3 = (if currentIndex \<ge> js_or (totalReposts (stats state)) 0
                   then load_next_batch currentIndex state w2 else w2);
         if removedCount \<ge> maxRem then
           Some (LimitReached, removedCount,
             broadcast (status_msg ''Daily limit reached'' ''statusDailyLimitReached'' []) w3)
         else do {
           let currentIndex' = currentIndex + 1;
           let displayTotal = max currentIndex' (js_or (totalReposts (stats state)) 0);
           let w4 = (if displayTotal > totalReposts (stats state) then setTotal displayTotal w3 else w3);
           let w5 = broadcast
             (status_msg
                (''Processing repost '' @ show_int currentIndex' @ '' of '' @
                   show_int displayTotal @ ''...'')
                ''statusProcessingRepostOf'' [(''current'', currentIndex'), (''total'', displayTotal)]) w4;
           let vinfo = getVideoInfo w5;
           let w6 = setCurrentVideo (with_index vinfo currentIndex') w5;
           let w7 = broadcast (UPDATE_PROGRESS currentIndex' displayTotal (Video vinfo)) w6;
           let (repostButton, w8) = waitForElement ''video.repostButton'' 5000 w7;
           (removedCount', w9) \<leftarrow>
             (if repostButton \<and> isVideoReposted w8 then
                do {
                  let wa = click_element ''video.repostButton'' w8;
                  let wb = broadcast (VIDEO_REMOVED (with_index vinfo currentIndex')) wa;
                  let (d, wc) = getRandomDelay 200 400 wb;
                  wd \<leftarrow> pausableSleep d wc;
                  Some (removedCount + 1, wd)
                }
              else
                Some (removedCount,
                  broadcast (VIDEO_SKIPPED (with_index vinfo currentIndex')
                    ''Not a repost or button not found'') w8));
           let (nextButton, w10) = waitForElement ''video.nextButton'' 5000 w9;
           if nextButton \<and> \<not> nextDisabled (page_now w10) then
             do {
               let w11 = click_element ''video.nextButton'' w10;
               let (d1, w12) = getRandomDelay 300 900 w11;
               w13 \<leftarrow> pausableSleep d1 w12;
               w14 \<leftarrow>
                 (if currentIndex' mod 35 = 0 then
                    (let (d2, wx) = getRandomDelay 1500 4000 w13 in pausableSleep d2 wx)
                  else if currentIndex' mod 10 = 0 then
                    (let (d3, wy) = getRandomDelay 700 1500 w13 in pausableSleep d3 wy)
                  else Some w13);
               processVideoQueue_loop currentIndex' removedCount' maxRem w14
             }
           else Some (EndOfList, removedCount', w10)
         }
       }
     }"

definition close_player :: "world \<Rightarrow> world" where
  "close_player w =
     (let (closeButton, w1) = waitForElement ''video.closeButton'' 3000 w
      in if closeButton then click_element ''video.closeButton'' w1
         else w1\<lparr>actions := actions w1 @ [(Escape, clock w1)]\<rparr>)"

definition step_processVideoQueue :: "world \<Rightarrow> world option" where
  "step_processVideoQueue w =
     do {
       (how, removedCount, w1) \<leftarrow> processVideoQueue_loop 0 0 (maxRemoval w) w;
       Some (close_player w1)
     }"

definition start :: "world \<Rightarrow> world option" where
  "start w =
     (let (state, w0) = getState False w
      in if isRunning (process state) then Some w0
         else
           (let w1 = startProcess JUndef w0;
                w2 = broadcast (status_msg ''Starting removal process...'' ''statusStarting'' []) w1;
                w3 = border_create w2;
                (ok1, w4) = step_navigateToProfile w3
            in if \<not> ok1 then Some w4
               else
                 (let (ok2, w5) = step_switchToRepostsTabAndScroll w4
                  in if \<not> ok2 then Some w5
                     else
                       (let (currentState, w6) = getState False w5
                        in if totalReposts (stats currentState) = 0 then
                             (let (duration, w7) = getDuration w6;
                                  w8 = broadcast (NO_REPOSTS_FOUND duration) w7
                              in Some (finishProcess w8))
                           else
                             (let (ok3, w9) = step_openFirstVideo w6
                              in if \<not> ok3 then Some w9
                                 else
                                   do {
                                     w10 \<leftarrow> step_processVideoQueue w9;
                                     let w11 = finishProcess w10;
                                     Some (snd (step_navigateToRepostsTab w11))
                                   })))))"

section \<open>Sample inputs\<close>

definition running_bg :: bg_t where
  "running_bg =
     \<lparr>sm_state =
        \<lparr>process = \<lparr>isRunning = True, isPaused = False, tabId = Some 7, startTime = Some 1000\<rparr>,
         stats = \<lparr>totalReposts = 10, processedVideos = 4, removedVideos = 4, skippedVideos = 0\<rparr>,
         currentVideo = \<lparr>title = ''t'', url = ''u'', author = ''@a'', index = 4\<rparr>,
         removedList = []\<rparr>,
      stored = None, outbox = []\<rparr>"

definition sample_stats :: "(string \<times> json) list" where
  "sample_stats = [(''totalReposts'', JNum 10), (''processedVideos'', JNum 4),
     (''removedVideos'', JNum 4), (''skippedVideos'', JNum 0)]"

section \<open>Commands reaching the canonical state\<close>

text \<open>
  What the user can make happen from the popup, as far as the canonical process state is
  concerned. \<open>Request\<close> is the state update of \<open>handleRemoveReposts\<close> in the background, which
  names the tab; \<open>Start\<close> is the beginning of \<open>start()\<close> in the content script, up to
  \<open>startProcess\<close>; \<open>Stop\<close> is \<open>stopProcess\<close>, as called when a run ends. \<open>Pause\<close> and \<open>Resume\<close>
  reach the background, which hands the message to \<^verbatim>\<open>chrome.tabs.sendMessage\<close> for the tab it
  has named at that moment, and drops it when it has named none; the message arrives at the
  tab later (\<open>Arrive\<close>: the oldest message on its way arrives), and then the handler of
  \<open>main.js\<close> runs there, whatever has happened in between. A \<open>system\<close> is a world together with
  the forwarded messages that are on their way, oldest first. \<open>background_does\<close> lets the
  background act and delivers what it pushes.
\<close>

definition background_does :: "(bg_t \<Rightarrow> bg_t) \<Rightarrow> world \<Rightarrow> world" where
  "background_does f w =
     (let b' = f (background w);
          pushes = drop (length (outbox (background w))) (outbox b')
      in fold stateStore_onMessage pushes (w\<lparr>background := b'\<rparr>))"


datatype forwarded = PAUSE_REMOVAL | RESUME_REMOVAL



definition PAUSE_REMOVAL_handler :: "world \<Rightarrow> world" where
  "PAUSE_REMOVAL_handler w =
     broadcast (STATUS_UPDATE \<lparr>status = ''Paused by user.'', statusKey = None, statusParams = []\<rparr>)
       (setPaused True w)"

definition RESUME_REMOVAL_handler :: "world \<Rightarrow> world" where
  "RESUME_REMOVAL_handler w =
     broadcast (STATUS_UPDATE \<lparr>status = ''Resuming process...'', statusKey = None, statusParams = []\<rparr>)
       (setPaused False w)"

fun handler_of :: "forwarded \<Rightarrow> world \<Rightarrow> world" where
  "handler_of PAUSE_REMOVAL = PAUSE_REMOVAL_handler"
| "handler_of RESUME_REMOVAL = RESUME_REMOVAL_handler"






text \<open>
  The canonical state is the one the background holds. \<open>paused_only_running\<close> is the invariant
  of the process flags. \<open>pause_arrives sys\<close> says that the next message to arrive is a pause
  for this tab, and \<open>pauses_land_running cs sys\<close> that each pause that arrives at the tab in
  the course of the sequence \<open>cs\<close>, applied from \<open>sys\<close>, arrives while the canonical state is
  running.
\<close>

definition canonical :: "world \<Rightarrow> pstate" where
  "canonical w = sm_state (background w)"




text \<open>
  \<open>deliver s w\<close> is the arrival of a \<open>STATE_CHANGED\<close> carrying \<open>s\<close>: it reaches the content
  script when \<open>s\<close> names its tab. \<open>blocked\<close> is the condition under which the pause check
  waits.
\<close>

definition deliver :: "pstate \<Rightarrow> world \<Rightarrow> world" where
  "deliver s w = (if tabs_of (tabId (process s)) = [myTab w] then w\<lparr>ss_state := s\<rparr> else w)"

definition blocked :: "world \<Rightarrow> bool" where
  "blocked w = (isPaused (process (ss_state w)) \<and> isRunning (process (ss_state w)))"

text \<open>
  Sample inputs: a tab whose content script has just been loaded, on a page where no selector
  matches; a cache that says running while the canonical state does not (\<open>stale_world\<close>); a
  canonical state that is running while the cache is the default (\<open>restart_world\<close>); and the
  two in agreement (\<open>synced_world\<close>).
\<close>

definition initial_bg :: bg_t where
  "initial_bg = \<lparr>sm_state = defaultState, stored = None, outbox = []\<rparr>"

definition initial_page :: page where
  "initial_page =
     \<lparr>present = (\<lambda>k. False), containers = 0, scrollHeight = 0, pressed = False,
      activeColor = False, filledIcon = False, nextDisabled = False,
      videoInfo = \<lparr>title = [], url = [], author = []\<rparr>, repostsByText = False,
      href = ''https://www.tiktok.com/''\<rparr>"

definition initial_world :: "int \<Rightarrow> world" where
  "initial_world tab =
     \<lparr>ss_state = defaultState, background = initial_bg, reachable = True, myTab = tab,
      protocol = ''https:'', clock = 0, page_at = (\<lambda>t. initial_page), quotaInfo = None,
      rnd = (\<lambda>k. 0), drawn = 0, sent = [], actions = [], border = Some False,
      messageBus = True\<rparr>"

definition stale_world :: world where
  "stale_world = (initial_world 7)\<lparr>ss_state := sm_state running_bg\<rparr>"

definition restart_world :: world where
  "restart_world = (initial_world 7)\<lparr>background := running_bg\<rparr>"

definition synced_world :: world where
  "synced_world = (initial_world 7)\<lparr>ss_state := sm_state running_bg, background := running_bg\<rparr>"

text \<open>
  What a message does to the canonical state, as a partial update: \<open>state_update_of\<close> is the
  update the background merges on receiving it from a tab (none for a message it only
  acknowledges), \<open>received\<close> the canonical state afterwards, and \<open>pushed\<close> says whether the
  resulting \<open>STATE_CHANGED\<close> reaches the sender.
\<close>

definition reset_update :: json where
  "reset_update = JObj
     [(''process'', JObj
         [(''isRunning'', JBool False), (''isPaused'', JBool False), (''startTime'', JNull),
          (''tabId'', JNull)]),
      (''currentVideo'', enc_video no_video)]"

fun state_update_of :: "int \<Rightarrow> cmsg \<Rightarrow> pstate \<Rightarrow> json option" where
  "state_update_of now (UPDATE_STATE u) s = Some u"
| "state_update_of now RESET_STATE s = Some reset_update"
| "state_update_of now (UPDATE_PROGRESS cur tot x) s =
     Some (JObj [(''stats'', JObj [(''processedVideos'', JNum cur), (''totalReposts'', JNum tot)])])"
| "state_update_of now (VIDEO_REMOVED payload) s =
     Some (JObj
       [(''stats'', JObj [(''removedVideos'', JNum (removedVideos (stats s) + 1))]),
        (''removedList'', JArr (map enc_removed (removedList s) @
           [enc_removed
             \<lparr>title = title payload, url = url payload, author = author payload,
              index = index payload, removedAt = now\<rparr>]))])"
| "state_update_of now (COMPLETE r t d) s = Some not_running"
| "state_update_of now (ERROR m e) s = Some not_running"
| "state_update_of now (NO_REPOSTS_FOUND d) s = Some not_running"
| "state_update_of now m s = None"

definition received :: "int \<Rightarrow> cmsg \<Rightarrow> pstate \<Rightarrow> pstate" where
  "received now m s = (case state_update_of now m s of None \<Rightarrow> s | Some u \<Rightarrow> merged s u)"

definition pushed :: "int \<Rightarrow> cmsg \<Rightarrow> world \<Rightarrow> bool" where
  "pushed now m w =
     (reachable w \<and> state_update_of now m (canonical w) \<noteq> None \<and>
      tabs_of (tabId (process (received now m (canonical w)))) = [myTab w])"





section \<open>A run of the removal loop\<close>

text \<open>
  What a run is observed by: the clicks on the repost button of the player (each one removes
  the repost shown), and the error messages sent.
\<close>

definition removals :: "world \<Rightarrow> nat" where
  "removals w = length (filter (\<lambda>(a, t). a = Click ''video.repostButton'') (actions w))"

fun is_error :: "cmsg \<Rightarrow> bool" where
  "is_error (ERROR m e) = True"
| "is_error m = False"

definition errors :: "world \<Rightarrow> nat" where
  "errors w = length (filter (\<lambda>(m, t). is_error m) (sent w))"

text \<open>
  The state in which the loop runs undisturbed: the background can be reached, the cache of
  the content script equals the canonical state, which names this tab, is running and is not
  paused.
\<close>

definition steady :: "world \<Rightarrow> bool" where
  "steady w =
     (reachable w \<and> ss_state w = canonical w \<and>
      tabs_of (tabId (process (canonical w))) = [myTab w] \<and>
      isRunning (process (canonical w)) \<and> \<not> isPaused (process (canonical w)))"

text \<open>
  A list whose items all test as reposts: at every moment the player shows a repost button
  that tests as reposted, and a next button that is enabled.
\<close>

definition all_reposts :: "world \<Rightarrow> bool" where
  "all_reposts w =
     (\<forall>t. present (page_at w t) ''video.repostButton'' \<and>
          (pressed (page_at w t) \<or> activeColor (page_at w t) \<or> filledIcon (page_at w t)) \<and>
          present (page_at w t) ''video.nextButton'' \<and> \<not> nextDisabled (page_at w t))"

definition going :: "world \<Rightarrow> bool" where
  "going w = (steady w \<and> all_reposts w)"

text \<open>The number of 100 ms slices a pausable sleep of \<open>ms\<close> milliseconds takes.\<close>

definition sleep_polls :: "int \<Rightarrow> nat" where
  "sleep_polls ms = nat ((ms + 99) div 100)"

text \<open>
  Sample inputs: a running process with \<open>n\<close> loaded reposts in tab 7, a quota snapshot with
  \<open>r\<close> removals remaining, and a player that always shows a repost.
\<close>

definition queue_state :: "int \<Rightarrow> pstate" where
  "queue_state n =
     defaultState\<lparr>process := \<lparr>isRunning = True, isPaused = False, tabId = Some 7, startTime = Some 1000\<rparr>,
       stats := zero_stats\<lparr>totalReposts := n\<rparr>\<rparr>"

definition player_page :: page where
  "player_page =
     initial_page\<lparr>present := (\<lambda>k. k = ''video.repostButton'' \<or> k = ''video.nextButton''),
       pressed := True\<rparr>"

definition queue_world :: "int \<Rightarrow> int \<Rightarrow> world" where
  "queue_world n r =
     (initial_world 7)\<lparr>ss_state := queue_state n,
       background := \<lparr>sm_state = queue_state n, stored = None, outbox = []\<rparr>,
       page_at := (\<lambda>t. player_page),
       quotaInfo := Some \<lparr>remaining = Some r, daily_limit = 100, is_premium = False\<rparr>\<rparr>"

section \<open>Facts about the merge and the encoding\<close>

lemma deepMerge_obj: "deepMerge (JObj t) (JObj s) = JObj (mergeKeys t s)"
  by (simp add: deepMerge.simps)

lemma dec_enc_opt_int [simp]: "dec_opt_int (enc_opt_int x) = x"
  by (cases x) simp_all

lemma not_mergeable_opt_int [simp]: "\<not> mergeable (enc_opt_int x)"
  by (cases x) simp_all

lemma dec_enc_removed [simp]: "dec_removed (enc_removed r) = r"
  by (simp add: dec_removed_def enc_removed_def field_def prop_of_def)

lemma dec_enc_pstate [simp]: "dec_pstate (enc_pstate s) = s"
  by (simp add: dec_pstate_def enc_pstate_def dec_process_def enc_process_def dec_stats_def
      enc_stats_def dec_video_def enc_video_def field_def prop_of_def map_idI)

lemma enc_opt_int_defined [simp]: "enc_opt_int x \<noteq> JUndef" "serialized (enc_opt_int x) = enc_opt_int x"
  by (cases x; simp)+

lemma enc_defined [simp]:
  "enc_process p \<noteq> JUndef" "enc_stats t \<noteq> JUndef" "enc_video v \<noteq> JUndef"
  "enc_removed r \<noteq> JUndef" "enc_pstate s \<noteq> JUndef"
  by (simp_all add: enc_process_def enc_stats_def enc_video_def enc_removed_def enc_pstate_def)

lemma serialized_enc [simp]:
  "serialized (enc_process p) = enc_process p" "serialized (enc_stats t) = enc_stats t"
  "serialized (enc_video v) = enc_video v" "serialized (enc_removed r) = enc_removed r"
  by (simp_all add: enc_process_def enc_stats_def enc_video_def enc_removed_def)

lemma serialized_items_append [simp]:
  "serialized_items (xs @ ys) = serialized_items xs @ serialized_items ys"
  by (induction xs) simp_all

lemma serialized_items_removed [simp]:
  "serialized_items (map enc_removed l) = map enc_removed l"
  by (induction l) simp_all

lemma serialized_enc_pstate [simp]: "serialized (enc_pstate s) = enc_pstate s"
  by (simp add: enc_pstate_def)

lemmas enc_defs = enc_pstate_def enc_process_def enc_stats_def enc_video_def

lemmas dec_defs = dec_pstate_def dec_process_def dec_stats_def dec_video_def field_def prop_of_def
  or_empty_def

text \<open>The literal updates of the program, merged into a typed state.\<close>


lemma merged_process_flags:
  "merged s (JObj [(''process'', JObj [(''isRunning'', JBool r), (''isPaused'', JBool p)])]) =
     s\<lparr>process := (process s)\<lparr>isRunning := r, isPaused := p\<rparr>\<rparr>"
  by (simp add: merged_def enc_defs dec_defs deepMerge_obj map_idI)

lemma merged_paused:
  "merged s (JObj [(''process'', JObj [(''isPaused'', JBool p)])]) =
     s\<lparr>process := (process s)\<lparr>isPaused := p\<rparr>\<rparr>"
  by (simp add: merged_def enc_defs dec_defs deepMerge_obj map_idI)

lemma merged_stop:
  "merged s (JObj [(''process'', JObj
       [(''isRunning'', JBool False), (''isPaused'', JBool False), (''tabId'', JNull),
        (''startTime'', JNull)])]) =
     s\<lparr>process := \<lparr>isRunning = False, isPaused = False, tabId = None, startTime = None\<rparr>\<rparr>"
  by (simp add: merged_def enc_defs dec_defs deepMerge_obj map_idI)

lemma merged_start:
  "merged s (JObj [(''process'', JObj
        [(''isRunning'', JBool True), (''isPaused'', JBool False), (''startTime'', JNum t)]),
      (''stats'', enc_stats zero_stats), (''removedList'', JArr [])]) =
     s\<lparr>process := (process s)\<lparr>isRunning := True, isPaused := False, startTime := Some t\<rparr>,
       stats := zero_stats, removedList := []\<rparr>"
  by (simp add: merged_def enc_defs dec_defs deepMerge_obj map_idI zero_stats_def)


lemma merged_keep_stats:
  "merged s (JObj
        [(''process'', JObj
            [(''isRunning'', JBool False), (''isPaused'', JBool False), (''tabId'', JNull),
             (''startTime'', enc_opt_int (startTime (process s)))]),
         (''currentVideo'', enc_video no_video)]) =
     s\<lparr>process := \<lparr>isRunning = False, isPaused = False, tabId = None,
                    startTime = startTime (process s)\<rparr>,
       currentVideo := no_video\<rparr>"
  by (simp add: merged_def enc_defs dec_defs deepMerge_obj map_idI)

lemma merged_reset:
  "merged s (JObj
        [(''process'', JObj
            [(''isRunning'', JBool False), (''isPaused'', JBool False), (''startTime'', JNull),
             (''tabId'', JNull)]),
         (''currentVideo'', enc_video no_video)]) =
     s\<lparr>process := \<lparr>isRunning = False, isPaused = False, tabId = None, startTime = None\<rparr>,
       currentVideo := no_video\<rparr>"
  by (simp add: merged_def enc_defs dec_defs deepMerge_obj map_idI)

lemma merged_total:
  "merged s (JObj [(''stats'', JObj [(''totalReposts'', JNum n)])]) =
     s\<lparr>stats := (stats s)\<lparr>totalReposts := n\<rparr>\<rparr>"
  by (simp add: merged_def enc_defs dec_defs deepMerge_obj map_idI)

lemma merged_progress:
  "merged s (JObj [(''stats'', JObj [(''processedVideos'', JNum c), (''totalReposts'', JNum n)])]) =
     s\<lparr>stats := (stats s)\<lparr>totalReposts := n, processedVideos := c\<rparr>\<rparr>"
  by (simp add: merged_def enc_defs dec_defs deepMerge_obj map_idI)

lemma merged_removed:
  "merged s (JObj [(''stats'', JObj [(''removedVideos'', JNum n)]),
      (''removedList'', JArr (map enc_removed l))]) =
     s\<lparr>stats := (stats s)\<lparr>removedVideos := n\<rparr>, removedList := l\<rparr>"
  by (simp add: merged_def enc_defs dec_defs deepMerge_obj o_def)

lemma merged_video:
  "merged s (JObj [(''currentVideo'', enc_video v)]) = s\<lparr>currentVideo := v\<rparr>"
  by (simp add: merged_def enc_defs dec_defs deepMerge_obj map_idI)

lemma set_updates_paused:
  "set_updates ''process.isPaused'' v = JObj [(''process'', JObj [(''isPaused'', v)])]"
  by (simp add: set_updates_def)

lemma set_updates_total:
  "set_updates ''stats.totalReposts'' v = JObj [(''stats'', JObj [(''totalReposts'', v)])]"
  by (simp add: set_updates_def)

section \<open>Facts about the background\<close>

lemma sm_state_updateState: "sm_state (updateState now u b) = merged (sm_state b) u"
  by (simp add: updateState_def broadcastState_def Let_def merged_def)

lemma stored_updateState [simp]: "stored (updateState now q b) = stored b"
  by (simp add: updateState_def broadcastState_def Let_def)

lemma outbox_updateState:
  "outbox (updateState now u b) =
     outbox b @ (Runtime, STATE_CHANGED (merged (sm_state b) u), now) #
       map (\<lambda>n. (Tab n, STATE_CHANGED (merged (sm_state b) u), now))
         (tabs_of (tabId (process (merged (sm_state b) u))))"
  by (simp add: updateState_def broadcastState_def Let_def merged_def)

lemma prop_of_update:
  "prop_of (AList.update k v al) key = (if key = k then v else prop_of al key)"
  by (simp add: prop_of_def update_conv')

lemma mergeKeys_lookup:
  "distinct (map fst src) \<Longrightarrow>
   map_of (mergeKeys tgt src) key =
     (case map_of src key of
        None \<Rightarrow> map_of tgt key
      | Some v \<Rightarrow> Some (if mergeable v then deepMerge (or_empty (prop_of tgt key)) v else v))"
proof (induction src arbitrary: tgt)
  case Nil
  show ?case by simp
next
  case (Cons kv src)
  obtain k v where kv: "kv = (k, v)" by (cases kv)
  from Cons.prems kv have d: "distinct (map fst src)" and nk: "map_of src k = None"
    by (auto simp: map_of_eq_None_iff)
  show ?case
  proof (cases "key = k")
    case True
    with nk show ?thesis
      using Cons.IH [OF d] by (simp add: kv update_conv' prop_of_update split: option.split)
  next
    case False
    then show ?thesis
      using Cons.IH [OF d] by (simp add: kv update_conv' prop_of_update split: option.split)
  qed
qed

lemma sibling_kept:
  assumes "prop_of tgt ''stats'' = JObj st" and "k' \<noteq> k"
  shows "field (field (deepMerge (JObj tgt) (JObj [(''stats'', JObj [(k, v)])])) ''stats'') k' =
         field (JObj st) k'"
  using assms
  by (simp add: deepMerge_obj field_def prop_of_update or_empty_def split: if_splits)

lemma merged_processed:
  "merged s (JObj [(''stats'', JObj [(''processedVideos'', JNum n)])]) =
     s\<lparr>stats := (stats s)\<lparr>processedVideos := n\<rparr>\<rparr>"
  by (simp add: merged_def enc_defs dec_defs deepMerge_obj map_idI)

lemma merged_removedVideos:
  "merged s (JObj [(''stats'', JObj [(''removedVideos'', JNum n)])]) =
     s\<lparr>stats := (stats s)\<lparr>removedVideos := n\<rparr>\<rparr>"
  by (simp add: merged_def enc_defs dec_defs deepMerge_obj map_idI)

lemma merged_skipped:
  "merged s (JObj [(''stats'', JObj [(''skippedVideos'', JNum n)])]) =
     s\<lparr>stats := (stats s)\<lparr>skippedVideos := n\<rparr>\<rparr>"
  by (simp add: merged_def enc_defs dec_defs deepMerge_obj map_idI)

section \<open>Facts about waiting\<close>

lemma onMessage_timeout: "runtime_onMessage now s (UI_WAIT_TIMEOUT k t u) b = (b, NoResponse)"
  by simp

lemma send_timeout:
  "runtime_sendMessage (UI_WAIT_TIMEOUT k t u) w =
     (NoResponse, w\<lparr>sent := sent w @ [(UI_WAIT_TIMEOUT k t u, clock w)]\<rparr>)"
proof (cases "reachable w")
  case True
  then show ?thesis
    unfolding runtime_sendMessage_def Let_def by simp
next
  case False
  then show ?thesis
    unfolding runtime_sendMessage_def Let_def by simp
qed

lemma wait_check_absent:
  assumes "\<forall>t \<ge> clock w. \<not> present (page_at w t) key" and "messageBus w"
  shows "\<exists>n. wait_check key timeout e w = (False, timed_out key timeout (clock w + 200 * int n) w) \<and>
             clock w + 200 * int n > e \<and> clock w + 200 * int n \<le> max (clock w) (e + 200)"
  using assms
proof (induction key timeout e w rule: wait_check.induct)
  case (1 selectorKey timeout endTime w)
  have absent: "\<not> present (page_now w) selectorKey"
    using "1.prems" by (simp add: page_now_def)
  show ?case
  proof (cases "clock w > endTime")
    case True
    have "wait_check selectorKey timeout endTime w = (False, timed_out selectorKey timeout (clock w) w)"
      using True absent "1.prems"
      by (subst wait_check.simps) (simp add: page_now_def send_timeout timed_out_def)
    with True show ?thesis
      by (intro exI [of _ 0]) simp
  next
    case False
    have p: "\<forall>t \<ge> clock (sleep 200 w). \<not> present (page_at (sleep 200 w) t) selectorKey"
      using "1.prems" by (simp add: sleep_def)
    have m: "messageBus (sleep 200 w)"
      using "1.prems" by (simp add: sleep_def)
    from "1.IH" [OF absent False p m] obtain n where
      r: "wait_check selectorKey timeout endTime (sleep 200 w) =
            (False, timed_out selectorKey timeout (clock (sleep 200 w) + 200 * int n) (sleep 200 w))"
      and lo: "clock (sleep 200 w) + 200 * int n > endTime"
      and hi: "clock (sleep 200 w) + 200 * int n \<le> max (clock (sleep 200 w)) (endTime + 200)"
      by blast
    have c: "clock (sleep 200 w) + 200 * int n = clock w + 200 * int (Suc n)"
      by (simp add: sleep_def)
    have t: "timed_out selectorKey timeout (clock w + 200 * int (Suc n)) (sleep 200 w) =
             timed_out selectorKey timeout (clock w + 200 * int (Suc n)) w"
      by (simp add: timed_out_def sleep_def)
    have "wait_check selectorKey timeout endTime w =
            (False, timed_out selectorKey timeout (clock w + 200 * int (Suc n)) w)"
      using False absent r unfolding c t by (subst wait_check.simps) simp
    moreover have "clock w + 200 * int (Suc n) > endTime"
      using lo unfolding c .
    moreover have "clock w + 200 * int (Suc n) \<le> max (clock w) (endTime + 200)"
      using hi False unfolding c by (simp add: sleep_def)
    ultimately show ?thesis
      by blast
  qed
qed


section \<open>Facts about messages and the cache\<close>

lemma tabs_of_cases: "tabs_of x = [] \<or> (\<exists>n. tabs_of x = [n])"
  by (simp add: tabs_of_def split: option.split)

lemma fold_pushes:
  "fold stateStore_onMessage
     ((Runtime, m, t) # map (\<lambda>n. (Tab n, STATE_CHANGED s, t')) (tabs_of (tabId (process s)))) w =
   deliver s w"
  using tabs_of_cases [of "tabId (process s)"] by (auto simp: deliver_def)

lemma fold_tab_pushes:
  "fold stateStore_onMessage
     (map (\<lambda>n. (Tab n, STATE_CHANGED s, t')) (tabs_of (tabId (process s)))) w =
   deliver s w"
  using tabs_of_cases [of "tabId (process s)"] by (auto simp: deliver_def)

lemma pushes_updateState:
  "drop (length (outbox b)) (outbox (updateState now u b)) =
     (Runtime, STATE_CHANGED (merged (sm_state b) u), now) #
       map (\<lambda>n. (Tab n, STATE_CHANGED (merged (sm_state b) u), now))
         (tabs_of (tabId (process (merged (sm_state b) u))))"
  by (simp add: outbox_updateState)

lemma pushes_saved:
  "drop (length (outbox b)) (outbox (saveToStorage (updateState now u b))) =
     (Runtime, STATE_CHANGED (merged (sm_state b) u), now) #
       map (\<lambda>n. (Tab n, STATE_CHANGED (merged (sm_state b) u), now))
         (tabs_of (tabId (process (merged (sm_state b) u))))"
  by (simp add: outbox_updateState saveToStorage_def)

lemma background_does_updateState:
  "background_does (updateState now u) w =
     deliver (merged (canonical w) u) (w\<lparr>background := updateState now u (background w)\<rparr>)"
  unfolding background_does_def Let_def pushes_updateState fold_pushes canonical_def ..

lemma send_update:
  "reachable w \<Longrightarrow> runtime_sendMessage (UPDATE_STATE u) w =
     (Success, deliver (merged (canonical w) (serialized u))
        (w\<lparr>sent := sent w @ [(UPDATE_STATE u, clock w)],
           background := updateState (clock w) (serialized u) (background w)\<rparr>))"
  unfolding runtime_sendMessage_def Let_def
  by (simp add: pushes_updateState fold_tab_pushes canonical_def)

lemma send_unreachable:
  "\<not> reachable w \<Longrightarrow> runtime_sendMessage m w = (NoResponse, w\<lparr>sent := sent w @ [(m, clock w)]\<rparr>)"
  unfolding runtime_sendMessage_def Let_def by simp

lemma send_status:
  "runtime_sendMessage (STATUS_UPDATE x) w =
     ((if reachable w then Success else NoResponse), w\<lparr>sent := sent w @ [(STATUS_UPDATE x, clock w)]\<rparr>)"
proof (cases "reachable w")
  case True
  then show ?thesis unfolding runtime_sendMessage_def Let_def by simp
next
  case False
  then show ?thesis by (simp add: send_unreachable)
qed

lemma broadcast_status:
  "broadcast (STATUS_UPDATE x) w = w\<lparr>sent := sent w @ [(STATUS_UPDATE x, clock w)]\<rparr>"
  by (simp add: broadcast_def send_status)

lemma update_reachable:
  "reachable w \<Longrightarrow> update u w =
     deliver (merged (canonical w) (serialized u))
        (w\<lparr>ss_state := merged (ss_state w) u,
           sent := sent w @ [(UPDATE_STATE u, clock w)],
           background := updateState (clock w) (serialized u) (background w)\<rparr>)"
  by (simp add: update_def sendToBackground_def send_update merged_def canonical_def)

lemma update_unreachable:
  "\<not> reachable w \<Longrightarrow> update u w =
     w\<lparr>ss_state := merged (ss_state w) u, sent := sent w @ [(UPDATE_STATE u, clock w)]\<rparr>"
  by (simp add: update_def sendToBackground_def send_unreachable merged_def)

lemma canonical_update:
  "canonical (update u w) =
     (if reachable w then merged (canonical w) (serialized u) else canonical w)"
  by (cases "reachable w")
     (simp_all add: update_reachable update_unreachable deliver_def canonical_def sm_state_updateState)

lemma getState_cache [simp]: "getState False w = (ss_state w, w)"
  by (simp add: getState_def)

lemma onMessage_effect:
  "sm_state (fst (runtime_onMessage now (Some t) m b)) = received now m (sm_state b)"
  by (cases m)
     (simp_all add: received_def sm_state_updateState saveToStorage_def resetProcess_def
        reset_update_def Let_def)

lemma onMessage_pushes:
  "drop (length (outbox b)) (outbox (fst (runtime_onMessage now (Some t) m b))) =
     (case state_update_of now m (sm_state b) of
        None \<Rightarrow> []
      | Some u \<Rightarrow> (Runtime, STATE_CHANGED (merged (sm_state b) u), now) #
          map (\<lambda>n. (Tab n, STATE_CHANGED (merged (sm_state b) u), now))
            (tabs_of (tabId (process (merged (sm_state b) u)))))"
  by (cases m)
     (simp_all add: pushes_updateState pushes_saved resetProcess_def reset_update_def Let_def)

lemma send_reachable:
  assumes "reachable w"
  shows "snd (runtime_sendMessage m w) =
     (case state_update_of (clock w) (on_the_wire m) (canonical w) of
        None \<Rightarrow> w\<lparr>sent := sent w @ [(m, clock w)],
                   background := fst (runtime_onMessage (clock w) (Some (myTab w)) (on_the_wire m) (background w))\<rparr>
      | Some u \<Rightarrow> deliver (merged (canonical w) u)
          (w\<lparr>sent := sent w @ [(m, clock w)],
             background := fst (runtime_onMessage (clock w) (Some (myTab w)) (on_the_wire m) (background w))\<rparr>))"
proof -
  obtain b' r where o: "runtime_onMessage (clock w) (Some (myTab w)) (on_the_wire m) (background w) = (b', r)"
    by (cases "runtime_onMessage (clock w) (Some (myTab w)) (on_the_wire m) (background w)")
  have p: "drop (length (outbox (background w))) (outbox b') =
     (case state_update_of (clock w) (on_the_wire m) (canonical w) of
        None \<Rightarrow> []
      | Some u \<Rightarrow> (Runtime, STATE_CHANGED (merged (canonical w) u), clock w) #
          map (\<lambda>n. (Tab n, STATE_CHANGED (merged (canonical w) u), clock w))
            (tabs_of (tabId (process (merged (canonical w) u)))))"
  proof -
    have f: "fst (runtime_onMessage (clock w) (Some (myTab w)) (on_the_wire m) (background w)) = b'"
      using o by simp
    show ?thesis
      using onMessage_pushes [of "background w" "clock w" "myTab w" "on_the_wire m"]
      unfolding f canonical_def .
  qed
  show ?thesis
    using assms unfolding runtime_sendMessage_def Let_def o split_conv p
    by (cases "state_update_of (clock w) (on_the_wire m) (canonical w)") (simp_all add: fold_tab_pushes)
qed

lemma send_frame [simp]:
  "reachable (snd (runtime_sendMessage m w)) = reachable w"
  "myTab (snd (runtime_sendMessage m w)) = myTab w"
  "protocol (snd (runtime_sendMessage m w)) = protocol w"
  "clock (snd (runtime_sendMessage m w)) = clock w"
  "page_at (snd (runtime_sendMessage m w)) = page_at w"
  "quotaInfo (snd (runtime_sendMessage m w)) = quotaInfo w"
  "rnd (snd (runtime_sendMessage m w)) = rnd w"
  "drawn (snd (runtime_sendMessage m w)) = drawn w"
  "actions (snd (runtime_sendMessage m w)) = actions w"
  "border (snd (runtime_sendMessage m w)) = border w"
  "messageBus (snd (runtime_sendMessage m w)) = messageBus w"
  "sent (snd (runtime_sendMessage m w)) = sent w @ [(m, clock w)]"
  by (cases "reachable w";
      cases "state_update_of (clock w) (on_the_wire m) (canonical w)";
      simp add: send_reachable send_unreachable deliver_def)+

lemma send_canonical [simp]:
  "canonical (snd (runtime_sendMessage m w)) =
     (if reachable w then received (clock w) (on_the_wire m) (canonical w) else canonical w)"
proof (cases "reachable w")
  case True
  have "sm_state (fst (runtime_onMessage (clock w) (Some (myTab w)) (on_the_wire m) (background w))) =
          received (clock w) (on_the_wire m) (canonical w)"
    by (simp add: onMessage_effect canonical_def)
  with True show ?thesis
    by (cases "state_update_of (clock w) (on_the_wire m) (canonical w)")
       (simp_all add: send_reachable deliver_def canonical_def)
next
  case False
  then show ?thesis by (simp add: send_unreachable canonical_def)
qed

lemma send_cache [simp]:
  "ss_state (snd (runtime_sendMessage m w)) =
     (if pushed (clock w) (on_the_wire m) w then received (clock w) (on_the_wire m) (canonical w) else ss_state w)"
proof (cases "reachable w")
  case True
  then show ?thesis
    by (cases "state_update_of (clock w) (on_the_wire m) (canonical w)")
       (auto simp: send_reachable deliver_def pushed_def received_def)
next
  case False
  then show ?thesis by (simp add: send_unreachable pushed_def)
qed

lemma snd_sendToBackground [simp]: "snd (sendToBackground m w) = snd (runtime_sendMessage m w)"
  by (cases "runtime_sendMessage m w"; cases "fst (runtime_sendMessage m w)")
     (auto simp: sendToBackground_def)

lemma broadcast_snd [simp]: "broadcast m w = snd (runtime_sendMessage m w)"
  by (simp add: broadcast_def)

lemma update_snd:
  "update u w = snd (runtime_sendMessage (UPDATE_STATE u) (w\<lparr>ss_state := merged (ss_state w) u\<rparr>))"
  by (simp add: update_def merged_def)

lemma canonical_simps [simp]:
  "canonical (w\<lparr>ss_state := s\<rparr>) = canonical w"
  "canonical (w\<lparr>clock := c\<rparr>) = canonical w"
  "canonical (w\<lparr>sent := x\<rparr>) = canonical w"
  "canonical (w\<lparr>actions := a\<rparr>) = canonical w"
  "canonical (w\<lparr>border := b\<rparr>) = canonical w"
  "canonical (w\<lparr>drawn := d\<rparr>) = canonical w"
  "canonical (w\<lparr>background := g\<rparr>) = sm_state g"
  by (simp_all add: canonical_def)

lemma update_frame [simp]:
  "reachable (update u w) = reachable w"
  "myTab (update u w) = myTab w"
  "protocol (update u w) = protocol w"
  "clock (update u w) = clock w"
  "page_at (update u w) = page_at w"
  "quotaInfo (update u w) = quotaInfo w"
  "rnd (update u w) = rnd w"
  "drawn (update u w) = drawn w"
  "actions (update u w) = actions w"
  "border (update u w) = border w"
  "messageBus (update u w) = messageBus w"
  "sent (update u w) = sent w @ [(UPDATE_STATE u, clock w)]"
  by (simp_all add: update_snd)

lemma update_canonical [simp]:
  "canonical (update u w) =
     (if reachable w then merged (canonical w) (serialized u) else canonical w)"
  by (simp add: update_snd received_def)

lemma update_cache [simp]:
  "ss_state (update u w) =
     (if reachable w \<and> tabs_of (tabId (process (merged (canonical w) (serialized u)))) = [myTab w]
      then merged (canonical w) (serialized u) else merged (ss_state w) u)"
  by (simp add: update_snd pushed_def received_def)

section \<open>Facts about the pause check and the pausable sleep\<close>

lemma blocked_sleep [simp]: "blocked (sleep ms w) = blocked w"
  by (simp add: blocked_def sleep_def)

lemma checkPauseState_free: "\<not> blocked w \<Longrightarrow> checkPauseState w = Some w"
  by (subst checkPauseState.simps) (auto simp: blocked_def)

lemma checkPauseState_returns:
  assumes "checkPauseState w = Some y"
  shows "\<not> blocked w"
proof (rule checkPauseState.raw_induct [where P = "\<lambda>w y. \<not> blocked w", OF _ assms])
  fix f w y
  assume IH: "\<And>w y. f w = Some y \<Longrightarrow> \<not> blocked w"
    and body: "(let (state, w1) = getState False w
                in if \<not> isPaused (process state) \<or> \<not> isRunning (process state) then Some w1
                   else f (sleep 500 w1)) = Some y"
  show "\<not> blocked w"
  proof
    assume b: "blocked w"
    with body have "f (sleep 500 w) = Some y"
      by (simp add: blocked_def)
    then have "\<not> blocked (sleep 500 w)"
      by (rule IH)
    with b show False by simp
  qed
qed

lemma checkPauseState_blocked: "blocked w \<Longrightarrow> checkPauseState w = None"
  using checkPauseState_returns [of w] by (cases "checkPauseState w") auto

lemma checkPauseState_eq: "checkPauseState w = (if blocked w then None else Some w)"
  by (simp add: checkPauseState_free checkPauseState_blocked)

lemma sleep_sleep: "sleep a (sleep b w) = sleep (b + a) w"
  by (simp add: sleep_def)

lemma sleep_zero [simp]: "sleep 0 w = w"
  by (simp add: sleep_def)

lemma ss_state_sleep [simp]: "ss_state (sleep ms w) = ss_state w"
  by (simp add: sleep_def)

lemma pausableSleep_from_running:
  assumes "isRunning (process (ss_state w))" and "\<not> isPaused (process (ss_state w))"
  shows "\<exists>n. pausableSleep_from ms el w = Some (sleep (100 * int n) w) \<and>
             (ms \<le> el \<longrightarrow> n = 0) \<and>
             (el < ms \<longrightarrow> ms \<le> el + 100 * int n \<and> el + 100 * int n < ms + 100)"
  using assms
proof (induction "nat (ms - el)" arbitrary: el w rule: less_induct)
  case less
  have nb: "\<not> blocked w"
    using less.prems by (simp add: blocked_def)
  show ?case
  proof (cases "el < ms")
    case False
    then have "pausableSleep_from ms el w = Some (sleep (100 * int 0) w)"
      by (subst pausableSleep_from.simps) simp
    with False show ?thesis by (intro exI [of _ 0]) simp
  next
    case True
    then have m: "nat (ms - (el + 100)) < nat (ms - el)" by simp
    have r: "isRunning (process (ss_state (sleep 100 w)))"
      and p: "\<not> isPaused (process (ss_state (sleep 100 w)))"
      using less.prems by simp_all
    from less.hyps [OF m r p] obtain n where
      s: "pausableSleep_from ms (el + 100) (sleep 100 w) = Some (sleep (100 * int n) (sleep 100 w))"
      and z: "ms \<le> el + 100 \<longrightarrow> n = 0"
      and b: "el + 100 < ms \<longrightarrow> ms \<le> el + 100 + 100 * int n \<and> el + 100 + 100 * int n < ms + 100"
      by blast
    have "pausableSleep_from ms el w = Some (sleep (100 * int (Suc n)) w)"
      using True less.prems s
      by (subst pausableSleep_from.simps)
         (simp add: checkPauseState_free [OF nb] sleep_sleep algebra_simps)
    moreover have "ms \<le> el + 100 * int (Suc n) \<and> el + 100 * int (Suc n) < ms + 100"
      using True z b by (cases "ms \<le> el + 100") auto
    ultimately show ?thesis
      using True by (intro exI [of _ "Suc n"]) simp
  qed
qed

lemma pausableSleep_from_stopped:
  "\<not> isRunning (process (ss_state w)) \<Longrightarrow> pausableSleep_from ms el w = Some w"
  by (subst pausableSleep_from.simps) (simp add: checkPauseState_eq blocked_def)

lemma pausableSleep_from_blocked:
  "blocked w \<Longrightarrow> el < ms \<Longrightarrow> pausableSleep_from ms el w = None"
  by (subst pausableSleep_from.simps) (simp add: checkPauseState_eq)


lemma pausableSleep_300:
  "pausableSleep 300 stale_world = Some (sleep 300 stale_world)"
proof -
  have r: "isRunning (process (ss_state stale_world))" and p: "\<not> isPaused (process (ss_state stale_world))"
    by (simp_all add: stale_world_def initial_world_def running_bg_def)
  from pausableSleep_from_running [OF r p, of 300 0] obtain n where
    s: "pausableSleep_from 300 0 stale_world = Some (sleep (100 * int n) stale_world)"
    and b: "300 \<le> 100 * int n" "100 * int n < 400"
    by auto
  from b have "100 * int n = 300" by presburger
  with s show ?thesis by (simp add: pausableSleep_def)
qed


section \<open>Facts about the first workflow step\<close>

lemmas world_defs = restart_world_def synced_world_def stale_world_def initial_world_def
  running_bg_def initial_bg_def initial_page_def defaultState_def zero_stats_def no_video_def

lemma timed_out_frame [simp]:
  "reachable (timed_out k t c w) = reachable w"
  "myTab (timed_out k t c w) = myTab w"
  "protocol (timed_out k t c w) = protocol w"
  "clock (timed_out k t c w) = c"
  "page_at (timed_out k t c w) = page_at w"
  "quotaInfo (timed_out k t c w) = quotaInfo w"
  "rnd (timed_out k t c w) = rnd w"
  "drawn (timed_out k t c w) = drawn w"
  "actions (timed_out k t c w) = actions w"
  "border (timed_out k t c w) = border w"
  "messageBus (timed_out k t c w) = messageBus w"
  "sent (timed_out k t c w) = sent w @ [(UI_WAIT_TIMEOUT k t (href (page_at w c)), c)]"
  "ss_state (timed_out k t c w) = ss_state w"
  "canonical (timed_out k t c w) = canonical w"
  by (simp_all add: timed_out_def)

lemma waitForElement_nothing:
  assumes "\<forall>t. \<not> present (page_at w t) key" and "messageBus w" and "0 \<le> m"
  shows "waitForElement key (200 * m) w = (False, timed_out key (200 * m) (clock w + 200 * m + 200) w)"
proof -
  have a: "\<forall>t \<ge> clock w. \<not> present (page_at w t) key"
    using assms(1) by simp
  from wait_check_absent [OF a assms(2), of "200 * m" "clock w + 200 * m"] obtain n where
    r: "waitForElement key (200 * m) w = (False, timed_out key (200 * m) (clock w + 200 * int n) w)"
    and lo: "clock w + 200 * int n > clock w + 200 * m"
    and hi: "clock w + 200 * int n \<le> max (clock w) (clock w + 200 * m + 200)"
    unfolding waitForElement_def by blast
  from lo hi assms(3) have "int n = m + 1"
    by simp
  then have "clock w + 200 * int n = clock w + 200 * m + 200"
    by simp
  with r show ?thesis by simp
qed

lemma border_frame [simp]:
  "reachable (border_create w) = reachable w" "reachable (border_remove w) = reachable w"
  "myTab (border_create w) = myTab w" "myTab (border_remove w) = myTab w"
  "clock (border_create w) = clock w" "clock (border_remove w) = clock w"
  "page_at (border_create w) = page_at w" "page_at (border_remove w) = page_at w"
  "messageBus (border_create w) = messageBus w" "messageBus (border_remove w) = messageBus w"
  "sent (border_create w) = sent w" "sent (border_remove w) = sent w"
  "ss_state (border_create w) = ss_state w" "ss_state (border_remove w) = ss_state w"
  "canonical (border_create w) = canonical w" "canonical (border_remove w) = canonical w"
  "actions (border_create w) = actions w" "actions (border_remove w) = actions w"
  "quotaInfo (border_create w) = quotaInfo w" "quotaInfo (border_remove w) = quotaInfo w"
  "drawn (border_create w) = drawn w" "drawn (border_remove w) = drawn w"
  "rnd (border_create w) = rnd w" "rnd (border_remove w) = rnd w"
  by (simp_all add: border_create_def border_remove_def split: option.split)

lemma restart_facts:
  "ss_state restart_world = defaultState" "canonical restart_world = sm_state running_bg"
  "reachable restart_world" "myTab restart_world = 7" "clock restart_world = 0"
  "sent restart_world = []" "messageBus restart_world"
  "page_at restart_world = (\<lambda>t. initial_page)"
  by (simp_all add: restart_world_def initial_world_def canonical_def)

lemma navigate_fails:
  assumes "\<forall>t. \<forall>k. \<not> present (page_at w t) k" and "messageBus w"
  shows "step_navigateToProfile w =
    (False, handleError
       ''Cannot find profile button. Please make sure you're on TikTok.com and logged in.'' []
       (timed_out ''navigation.profileButton'' 5000 (clock w + 7400)
         (timed_out ''navigation.repostTab'' 2000 (clock w + 2200)
           (broadcast (status_msg ''Navigating to your profile...'' ''statusNavigatingProfile'' []) w))))"
proof -
  let ?w1 = "broadcast (status_msg ''Navigating to your profile...'' ''statusNavigatingProfile'' []) w"
  have a1: "\<forall>t. \<not> present (page_at ?w1 t) ''navigation.repostTab''" and m1: "messageBus ?w1"
    using assms by simp_all
  have r1: "waitForElement ''navigation.repostTab'' 2000 ?w1 =
      (False, timed_out ''navigation.repostTab'' 2000 (clock w + 2200) ?w1)"
    using waitForElement_nothing [OF a1 m1, of 10] by (simp add: ac_simps)
  let ?w2 = "timed_out ''navigation.repostTab'' 2000 (clock w + 2200) ?w1"
  have a2: "\<forall>t. \<not> present (page_at ?w2 t) ''navigation.profileButton''" and m2: "messageBus ?w2"
    using assms by simp_all
  have r2: "waitForElement ''navigation.profileButton'' 5000 ?w2 =
      (False, timed_out ''navigation.profileButton'' 5000 (clock w + 7400) ?w2)"
    using waitForElement_nothing [OF a2 m2, of 25] by (simp add: ac_simps)
  show ?thesis
    unfolding step_navigateToProfile_def Let_def r1 split_conv r2 by simp
qed

lemma handleError_frame [simp]:
  "sent (handleError m e w) =
     sent w @ [(UPDATE_STATE (JObj [(''process'', JObj
          [(''isRunning'', JBool False), (''isPaused'', JBool False), (''tabId'', JNull),
           (''startTime'', JNull)])]), clock w), (ERROR m e, clock w)]"
  "clock (handleError m e w) = clock w"
  by (simp_all add: handleError_def stopProcess_def)

lemma handleError_canonical:
  "reachable w \<Longrightarrow> canonical (handleError m e w) =
     (canonical w)\<lparr>process := \<lparr>isRunning = False, isPaused = False, tabId = None, startTime = None\<rparr>\<rparr>"
  by (simp add: handleError_def stopProcess_def received_def merged_stop not_running_def
      merged_process_flags)


section \<open>Facts about the commands\<close>

lemma update_keeps_equal:
  "reachable w \<Longrightarrow> ss_state w = canonical w \<Longrightarrow> serialized u = u \<Longrightarrow>
     ss_state (update u w) = canonical (update u w)"
  by simp

text \<open>
  A delta with an \<open>undefined\<close> value is applied to the cache and lost on the way to the
  background: while the canonical state names no tab (so that no \<open>STATE_CHANGED\<close> comes back),
  setting a path to \<open>undefined\<close> leaves the two states different.
\<close>

lemma merged_total_undefined:
  "merged s (JObj [(''stats'', JObj [(''totalReposts'', JUndef)])]) =
     s\<lparr>stats := (stats s)\<lparr>totalReposts := 0\<rparr>\<rparr>"
  by (simp add: merged_def enc_defs dec_defs deepMerge_obj map_idI)

lemma merged_stats_nothing: "merged s (JObj [(''stats'', JObj [])]) = s"
  by (simp add: merged_def enc_defs dec_defs deepMerge_obj map_idI)

lemma set_undefined_diverges:
  assumes "reachable w" and "ss_state w = canonical w"
    and "tabs_of (tabId (process (canonical w))) = []"
  shows "canonical (set_path ''stats.totalReposts'' JUndef w) = canonical w"
    and "ss_state (set_path ''stats.totalReposts'' JUndef w) =
      (canonical w)\<lparr>stats := (stats (canonical w))\<lparr>totalReposts := 0\<rparr>\<rparr>"
  using assms
  by (simp_all add: set_path_def set_updates_total merged_total_undefined merged_stats_nothing)

lemma merged_reset_update:
  "merged s reset_update =
     s\<lparr>process := \<lparr>isRunning = False, isPaused = False, tabId = None, startTime = None\<rparr>,
       currentVideo := no_video\<rparr>"
  by (simp add: reset_update_def merged_reset)

lemma background_does_canonical [simp]:
  "canonical (background_does (updateState now u) w) = merged (canonical w) u"
  by (simp add: background_does_updateState deliver_def sm_state_updateState canonical_def)

lemma background_does_frame [simp]:
  "reachable (background_does (updateState now u) w) = reachable w"
  "myTab (background_does (updateState now u) w) = myTab w"
  "clock (background_does (updateState now u) w) = clock w"
  by (simp_all add: background_does_updateState deliver_def)

lemma background_does_cache [simp]:
  "ss_state (background_does (updateState now u) w) =
     (if tabs_of (tabId (process (merged (canonical w) u))) = [myTab w]
      then merged (canonical w) u else ss_state w)"
  by (simp add: background_does_updateState deliver_def)


lemma setPaused_canonical [simp]:
  "canonical (setPaused p w) =
     (if reachable w then (canonical w)\<lparr>process := (process (canonical w))\<lparr>isPaused := p\<rparr>\<rparr>
      else canonical w)"
  by (simp add: setPaused_def set_path_def set_updates_paused merged_paused)

lemma setPaused_frame [simp]:
  "reachable (setPaused p w) = reachable w" "myTab (setPaused p w) = myTab w"
  "clock (setPaused p w) = clock w"
  by (simp_all add: setPaused_def set_path_def)

lemma setPaused_cache [simp]:
  "ss_state (setPaused p w) =
     (if reachable w \<and> tabs_of (tabId (process (canonical w))) = [myTab w]
      then (canonical w)\<lparr>process := (process (canonical w))\<lparr>isPaused := p\<rparr>\<rparr>
      else (ss_state w)\<lparr>process := (process (ss_state w))\<lparr>isPaused := p\<rparr>\<rparr>)"
  by (simp add: setPaused_def set_path_def set_updates_paused merged_paused)

lemma status_received [simp]: "received now (STATUS_UPDATE x) s = s"
  by (simp add: received_def)

lemma status_not_pushed [simp]: "\<not> pushed now (STATUS_UPDATE x) w"
  by (simp add: pushed_def)

lemma handler_canonical [simp]:
  "canonical (handler_of m w) =
     (if reachable w
      then (canonical w)\<lparr>process := (process (canonical w))\<lparr>isPaused := (m = PAUSE_REMOVAL)\<rparr>\<rparr>
      else canonical w)"
  by (cases m) (simp_all add: PAUSE_REMOVAL_handler_def RESUME_REMOVAL_handler_def)

lemma handler_frame [simp]:
  "reachable (handler_of m w) = reachable w" "myTab (handler_of m w) = myTab w"
  "clock (handler_of m w) = clock w"
  by (cases m; simp add: PAUSE_REMOVAL_handler_def RESUME_REMOVAL_handler_def)+





section \<open>Facts about scrolling\<close>

lemma progress_callback_frame [simp]:
  "clock (progress_callback cur ph n f w) = clock w"
  "page_at (progress_callback cur ph n f w) = page_at w"
  by (simp_all add: progress_callback_def)

lemma random_below_frame [simp]:
  "clock (snd (random_below n w)) = clock w"
  "page_at (snd (random_below n w)) = page_at w"
  by (simp_all add: random_below_def)


















lemma enough_eq: "enough m c = reached_max m c"
  by (simp add: enough_def reached_max_def)

section \<open>Tab closure (claim C5)\<close>

text \<open>
  Claim C5. When the tab that the canonical state names as its target is closed, the
  \<^verbatim>\<open>chrome.tabs.onRemoved\<close> listener leaves the canonical state not running with no tab,
  keeps \<open>stats\<close>, \<open>removedList\<close> and \<open>startTime\<close>, writes \<open>stats\<close> and \<open>removedList\<close> to storage
  at once, and sends exactly one \<open>TAB_CLOSED\<close> message, which carries those stats (after the
  \<open>STATE_CHANGED\<close> broadcast of the reset). The statement holds for every canonical state
  whose \<open>tabId\<close> is the closed tab, running or not.
\<close>

theorem tab_closure_recovery:
  assumes "tabId (process (sm_state b)) = Some t"
  shows "let b' = tabs_onRemoved now t b in
      isRunning (process (sm_state b')) = False \<and>
      tabId (process (sm_state b')) = None \<and>
      stats (sm_state b') = stats (sm_state b) \<and>
      removedList (sm_state b') = removedList (sm_state b) \<and>
      startTime (process (sm_state b')) = startTime (process (sm_state b)) \<and>
      stored b' = Some (stats (sm_state b), removedList (sm_state b)) \<and>
      outbox b' = outbox b @
        [(Runtime, STATE_CHANGED (sm_state b'), now),
         (Runtime, TAB_CLOSED t (stats (sm_state b)) (removedVideos (stats (sm_state b)) > 0), now)]"
  using assms
  by (simp add: tabs_onRemoved_def resetProcessKeepStats_def saveToStorage_def Let_def
      outbox_updateState sm_state_updateState merged_keep_stats tabs_of_def)

theorem tab_closure_recovery_witness:
  "tabId (process (sm_state running_bg)) = Some 7 \<and>
   isRunning (process (sm_state running_bg)) \<and>
   isRunning (process (sm_state (tabs_onRemoved 5000 7 running_bg))) = False \<and>
   tabId (process (sm_state (tabs_onRemoved 5000 7 running_bg))) = None \<and>
   stats (sm_state (tabs_onRemoved 5000 7 running_bg)) =
     \<lparr>totalReposts = 10, processedVideos = 4, removedVideos = 4, skippedVideos = 0\<rparr> \<and>
   startTime (process (sm_state (tabs_onRemoved 5000 7 running_bg))) = Some 1000 \<and>
   stored (tabs_onRemoved 5000 7 running_bg) =
     Some (\<lparr>totalReposts = 10, processedVideos = 4, removedVideos = 4, skippedVideos = 0\<rparr>, []) \<and>
   length (filter (\<lambda>(d, m, t). case m of TAB_CLOSED c s h \<Rightarrow> True | _ \<Rightarrow> False)
     (outbox (tabs_onRemoved 5000 7 running_bg))) = 1"
proof -
  have h: "tabId (process (sm_state running_bg)) = Some 7"
    by (simp add: running_bg_def)
  show ?thesis
    using tab_closure_recovery [OF h, of 5000]
    by (simp add: Let_def running_bg_def)
qed

section \<open>The recursive merge of updateState (claim C9)\<close>

text \<open>
  Claim C9. \<open>updateState\<close> merges recursively: for an update object with distinct keys, a key
  the update does not name keeps its value, a key whose update value is a non-array object is
  merged into the old value (or into the empty object when the old value is falsy), and any
  other update value (array, primitive, null) replaces the old one. An update that names one
  field of \<open>stats\<close> leaves every other field of \<open>stats\<close> as it was, both for any object target
  and for the four fields of the canonical state. The new state is the merge of the old one,
  and it is broadcast at once as \<open>STATE_CHANGED\<close> to the runtime and to the target tab if any.
\<close>

theorem updateState_recursive_merge:
  "(distinct (map fst src) \<longrightarrow>
      map_of (spread (deepMerge (JObj tgt) (JObj src))) key =
        (case map_of src key of
           None \<Rightarrow> map_of tgt key
         | Some v \<Rightarrow> Some (if mergeable v then deepMerge (or_empty (prop_of tgt key)) v else v))) \<and>
   (prop_of tgt ''stats'' = JObj st \<and> k' \<noteq> k \<longrightarrow>
      field (field (deepMerge (JObj tgt) (JObj [(''stats'', JObj [(k, x)])])) ''stats'') k' =
        field (JObj st) k') \<and>
   sm_state (updateState now u b) = dec_pstate (deepMerge (enc_pstate (sm_state b)) u) \<and>
   sm_state (updateState now (JObj [(''stats'', JObj [(''totalReposts'', JNum n)])]) b) =
     (sm_state b)\<lparr>stats := (stats (sm_state b))\<lparr>totalReposts := n\<rparr>\<rparr> \<and>
   sm_state (updateState now (JObj [(''stats'', JObj [(''processedVideos'', JNum n)])]) b) =
     (sm_state b)\<lparr>stats := (stats (sm_state b))\<lparr>processedVideos := n\<rparr>\<rparr> \<and>
   sm_state (updateState now (JObj [(''stats'', JObj [(''removedVideos'', JNum n)])]) b) =
     (sm_state b)\<lparr>stats := (stats (sm_state b))\<lparr>removedVideos := n\<rparr>\<rparr> \<and>
   sm_state (updateState now (JObj [(''stats'', JObj [(''skippedVideos'', JNum n)])]) b) =
     (sm_state b)\<lparr>stats := (stats (sm_state b))\<lparr>skippedVideos := n\<rparr>\<rparr> \<and>
   outbox (updateState now u b) =
     outbox b @ (Runtime, STATE_CHANGED (sm_state (updateState now u b)), now) #
       map (\<lambda>t. (Tab t, STATE_CHANGED (sm_state (updateState now u b)), now))
         (tabs_of (tabId (process (sm_state (updateState now u b)))))"
proof -
  have a: "distinct (map fst src) \<longrightarrow>
      map_of (spread (deepMerge (JObj tgt) (JObj src))) key =
        (case map_of src key of
           None \<Rightarrow> map_of tgt key
         | Some v \<Rightarrow> Some (if mergeable v then deepMerge (or_empty (prop_of tgt key)) v else v))"
    by (simp add: deepMerge_obj mergeKeys_lookup)
  have b: "prop_of tgt ''stats'' = JObj st \<and> k' \<noteq> k \<longrightarrow>
      field (field (deepMerge (JObj tgt) (JObj [(''stats'', JObj [(k, x)])])) ''stats'') k' =
        field (JObj st) k'"
    using sibling_kept by blast
  have c: "sm_state (updateState now u b) = dec_pstate (deepMerge (enc_pstate (sm_state b)) u)"
    by (simp add: sm_state_updateState merged_def)
  show ?thesis
    using a b c
    by (simp add: sm_state_updateState outbox_updateState merged_total merged_processed
        merged_removedVideos merged_skipped)
qed

theorem updateState_recursive_merge_witness:
  "distinct (map fst [(''stats'', JObj [(''removedVideos'', JNum 5)]), (''removedList'', JArr [])]) \<and>
   map_of (spread (deepMerge
       (JObj [(''stats'', JObj sample_stats), (''removedList'', JArr [JNum 1])])
       (JObj [(''stats'', JObj [(''removedVideos'', JNum 5)]), (''removedList'', JArr [])])))
     ''removedList'' = Some (JArr []) \<and>
   prop_of [(''stats'', JObj sample_stats), (''removedList'', JArr [JNum 1])] ''stats'' =
     JObj sample_stats \<and>
   ''totalReposts'' \<noteq> ''removedVideos'' \<and>
   field (field (deepMerge (JObj [(''stats'', JObj sample_stats), (''removedList'', JArr [JNum 1])])
       (JObj [(''stats'', JObj [(''removedVideos'', JNum 5)])])) ''stats'') ''totalReposts'' = JNum 10"
proof -
  have d: "distinct (map fst [(''stats'', JObj [(''removedVideos'', JNum 5)]), (''removedList'', JArr [])])"
    by simp
  have p: "prop_of [(''stats'', JObj sample_stats), (''removedList'', JArr [JNum 1])] ''stats'' =
      JObj sample_stats"
    by (simp add: prop_of_def)
  have n: "''totalReposts'' \<noteq> ''removedVideos''"
    by simp
  from updateState_recursive_merge
    [where src = "[(''stats'', JObj [(''removedVideos'', JNum 5)]), (''removedList'', JArr [])]"
       and tgt = "[(''stats'', JObj sample_stats), (''removedList'', JArr [JNum 1])]"
       and key = "''removedList''" and st = sample_stats and k' = "''totalReposts''"
       and k = "''removedVideos''" and x = "JNum 5"]
  have "map_of (spread (deepMerge
       (JObj [(''stats'', JObj sample_stats), (''removedList'', JArr [JNum 1])])
       (JObj [(''stats'', JObj [(''removedVideos'', JNum 5)]), (''removedList'', JArr [])])))
     ''removedList'' = Some (JArr [])"
    and "field (field (deepMerge (JObj [(''stats'', JObj sample_stats), (''removedList'', JArr [JNum 1])])
       (JObj [(''stats'', JObj [(''removedVideos'', JNum 5)])])) ''stats'') ''totalReposts'' = JNum 10"
    using d p n by (simp_all add: field_def prop_of_def sample_stats_def)
  then show ?thesis
    using d p n by blast
qed

section \<open>waitForElement on a missing element (claim C7)\<close>

text \<open>
  Claim C7. When no element matches the selector key from the call on, \<open>waitForElement\<close>
  resolves to null (\<open>False\<close> here) for every \<open>timeoutMs\<close>: the function is total, so it
  neither rejects nor throws. It resolves at a poll, a multiple of 200 ms after the call,
  strictly after \<open>timeoutMs\<close> has passed and at most one poll interval later, and the only thing it
  does besides waiting is to send one \<open>UI_WAIT_TIMEOUT\<close> message with the selector key, the
  timeout and the page URL. The message is sent through \<open>window.MessageBus\<close>, which
  \<^verbatim>\<open>modules/message-bus.js\<close> exports in the content script.
\<close>

theorem waitForElement_timeout:
  assumes "\<forall>t \<ge> clock w. \<not> present (page_at w t) key" and "messageBus w"
  shows "\<exists>n. let (found, w') = waitForElement key timeout w in
      \<not> found \<and>
      clock w' = clock w + 200 * int n \<and>
      clock w' > clock w + timeout \<and>
      clock w' \<le> max (clock w) (clock w + timeout + 200) \<and>
      sent w' = sent w @ [(UI_WAIT_TIMEOUT key timeout (href (page_at w (clock w'))), clock w')] \<and>
      w' = w\<lparr>clock := clock w', sent := sent w'\<rparr>"
proof -
  from wait_check_absent [OF assms, of timeout "clock w + timeout"] obtain n where
    r: "waitForElement key timeout w = (False, timed_out key timeout (clock w + 200 * int n) w)"
    and lo: "clock w + 200 * int n > clock w + timeout"
    and hi: "clock w + 200 * int n \<le> max (clock w) (clock w + timeout + 200)"
    unfolding waitForElement_def by blast
  show ?thesis
    using lo hi unfolding r Let_def split_conv
    by (intro exI [of _ n]) (simp add: timed_out_def)
qed

theorem waitForElement_timeout_witness:
  "(\<forall>t. \<not> present (page_at (initial_world 7) t) ''video.nextButton'') \<and>
   messageBus (initial_world 7) \<and>
   fst (waitForElement ''video.nextButton'' 1000 (initial_world 7)) = False \<and>
   clock (snd (waitForElement ''video.nextButton'' 1000 (initial_world 7))) = 1200 \<and>
   sent (snd (waitForElement ''video.nextButton'' 1000 (initial_world 7))) =
     [(UI_WAIT_TIMEOUT ''video.nextButton'' 1000 ''https://www.tiktok.com/'', 1200)]"
proof -
  have a: "\<forall>t \<ge> clock (initial_world 7). \<not> present (page_at (initial_world 7) t) ''video.nextButton''"
    by (simp add: initial_world_def initial_page_def)
  have b: "messageBus (initial_world 7)"
    by (simp add: initial_world_def)
  obtain found w' where r: "waitForElement ''video.nextButton'' 1000 (initial_world 7) = (found, w')"
    by (cases "waitForElement ''video.nextButton'' 1000 (initial_world 7)")
  from waitForElement_timeout [OF a b, of 1000] obtain n where
    f: "\<not> found" and c: "clock w' = 200 * int n" and lo: "clock w' > 1000" and hi: "clock w' \<le> 1200"
    and s: "sent w' = [(UI_WAIT_TIMEOUT ''video.nextButton'' 1000
        (href (page_at (initial_world 7) (clock w'))), clock w')]"
    unfolding r Let_def split_conv by (auto simp: initial_world_def)
  from c lo hi have "clock w' = 1200"
    by presburger
  with f s show ?thesis
    unfolding r by (simp add: initial_world_def initial_page_def)
qed

section \<open>What the pause checks read (claim C2)\<close>

text \<open>
  Claim C2, as stated, fails: \<open>checkPauseState\<close> and each increment of \<open>pausableSleep\<close> call
  \<open>getState()\<close> without \<open>forceRefresh\<close>, so they read the cached replica and send no
  \<open>GET_STATE\<close>. In \<open>stale_world\<close> the canonical state is not running while the cache still says
  running: \<open>pausableSleep 300\<close> sleeps the full 300 ms and sends nothing, although a forced
  read would have returned the canonical state.
\<close>

theorem pause_checks_canonical_counterexample:
  "\<not> isRunning (process (canonical stale_world)) \<and>
   pausableSleep 300 stale_world = Some (sleep 300 stale_world) \<and>
   clock (sleep 300 stale_world) = 300 \<and>
   sent (sleep 300 stale_world) = [] \<and>
   fst (getState True stale_world) = canonical stale_world \<and>
   fst (getState False stale_world) \<noteq> canonical stale_world"
  using pausableSleep_300
  by (simp add: stale_world_def initial_world_def running_bg_def initial_bg_def canonical_def
      sleep_def getState_def isContentScript_def sendToBackground_def runtime_sendMessage_def
      defaultState_def)

text \<open>
  Claim C2, amended. Every pause or stop decision of the workflow loop is taken on the cached
  replica, read without a round trip: \<open>checkPauseState\<close> returns at once unless the cache says
  paused and running, and then it keeps polling (it does not return while nothing else
  changes the cache: \<open>None\<close>); \<open>pausableSleep ms\<close> sleeps in increments of 100 ms up to the first
  multiple of 100 that reaches \<open>ms\<close> while the cache says running and not paused, returns at
  once when the cache says not running, and blocks in \<open>checkPauseState\<close> when the cache says
  paused and running. None of them changes anything but the clock.
\<close>

theorem pause_checks_read_cache:
  "getState False w = (ss_state w, w) \<and>
   checkPauseState w =
     (if isPaused (process (ss_state w)) \<and> isRunning (process (ss_state w)) then None else Some w) \<and>
   (isRunning (process (ss_state w)) \<and> \<not> isPaused (process (ss_state w)) \<longrightarrow>
      (\<exists>n. pausableSleep ms w = Some (sleep (100 * int n) w) \<and>
           (ms \<le> 0 \<longrightarrow> n = 0) \<and> (0 < ms \<longrightarrow> ms \<le> 100 * int n \<and> 100 * int n < ms + 100))) \<and>
   (\<not> isRunning (process (ss_state w)) \<longrightarrow> pausableSleep ms w = Some w) \<and>
   (isRunning (process (ss_state w)) \<and> isPaused (process (ss_state w)) \<and> 0 < ms \<longrightarrow>
      pausableSleep ms w = None)"
proof -
  have a: "isRunning (process (ss_state w)) \<and> \<not> isPaused (process (ss_state w)) \<longrightarrow>
      (\<exists>n. pausableSleep ms w = Some (sleep (100 * int n) w) \<and>
           (ms \<le> 0 \<longrightarrow> n = 0) \<and> (0 < ms \<longrightarrow> ms \<le> 100 * int n \<and> 100 * int n < ms + 100))"
    using pausableSleep_from_running [of w ms 0] by (auto simp: pausableSleep_def)
  show ?thesis
    using a checkPauseState_eq [of w]
    by (simp add: pausableSleep_def pausableSleep_from_stopped pausableSleep_from_blocked blocked_def)
qed

theorem pause_checks_read_cache_witness:
  "isRunning (process (ss_state stale_world)) \<and> \<not> isPaused (process (ss_state stale_world)) \<and>
   checkPauseState stale_world = Some stale_world \<and>
   pausableSleep 300 stale_world = Some (sleep 300 stale_world) \<and>
   \<not> isRunning (process (ss_state (initial_world 7))) \<and>
   pausableSleep 300 (initial_world 7) = Some (initial_world 7)"
proof -
  have r: "isRunning (process (ss_state stale_world))" and p: "\<not> isPaused (process (ss_state stale_world))"
    by (simp_all add: stale_world_def initial_world_def running_bg_def)
  have q: "\<not> isRunning (process (ss_state (initial_world 7)))"
    by (simp add: initial_world_def defaultState_def)
  from pause_checks_read_cache [of stale_world 300] r p obtain n where
    c: "checkPauseState stale_world = Some stale_world"
    and s: "pausableSleep 300 stale_world = Some (sleep (100 * int n) stale_world)"
    and b: "300 \<le> 100 * int n" "100 * int n < 400"
    by auto
  from b have "100 * int n = 300" by presburger
  with s have s': "pausableSleep 300 stale_world = Some (sleep 300 stale_world)" by simp
  from pause_checks_read_cache [of "initial_world 7" 300] q
  have t: "pausableSleep 300 (initial_world 7) = Some (initial_world 7)" by simp
  from r p c s' q t show ?thesis by simp
qed

section \<open>The guard of start (claim C1)\<close>

text \<open>
  Claim C1, as stated, fails: \<open>start()\<close> reads the state with \<open>getState()\<close>, without
  \<open>forceRefresh\<close>, so its guard looks at the cached replica. In \<open>restart_world\<close> the canonical
  state is running (with 4 of 10 removed) and the cache of the content script still says not
  running: \<open>start()\<close> goes on, \<open>startProcess\<close> zeroes the canonical stats, two status broadcasts
  follow, and (nothing being found on the page) the run ends through \<open>handleError\<close>, which
  leaves the canonical state not running.
\<close>

theorem start_not_idempotent_counterexample:
  "isRunning (process (canonical restart_world)) \<and>
   stats (canonical restart_world) =
     \<lparr>totalReposts = 10, processedVideos = 4, removedVideos = 4, skippedVideos = 0\<rparr> \<and>
   map_option sent (start restart_world) = Some
     [(UPDATE_STATE (JObj [(''process'', JObj
          [(''isRunning'', JBool True), (''isPaused'', JBool False), (''startTime'', JNum 0)]),
        (''stats'', enc_stats zero_stats), (''removedList'', JArr [])]), 0),
      (STATUS_UPDATE \<lparr>status = ''Starting removal process...'', statusKey = Some ''statusStarting'',
        statusParams = []\<rparr>, 0),
      (STATUS_UPDATE \<lparr>status = ''Navigating to your profile...'',
        statusKey = Some ''statusNavigatingProfile'', statusParams = []\<rparr>, 0),
      (UI_WAIT_TIMEOUT ''navigation.repostTab'' 2000 ''https://www.tiktok.com/'', 2200),
      (UI_WAIT_TIMEOUT ''navigation.profileButton'' 5000 ''https://www.tiktok.com/'', 7400),
      (UPDATE_STATE (JObj [(''process'', JObj
          [(''isRunning'', JBool False), (''isPaused'', JBool False), (''tabId'', JNull),
           (''startTime'', JNull)])]), 7400),
      (ERROR ''Cannot find profile button. Please make sure you're on TikTok.com and logged in.'' [],
       7400)] \<and>
   map_option stats (map_option canonical (start restart_world)) = Some zero_stats \<and>
   map_option isRunning (map_option process (map_option canonical (start restart_world))) = Some False"
proof -
  let ?w3 = "border_create
      (broadcast (status_msg ''Starting removal process...'' ''statusStarting'' [])
        (startProcess JUndef restart_world))"
  have a: "\<forall>t. \<forall>k. \<not> present (page_at ?w3 t) k" and m: "messageBus ?w3"
    by (simp_all add: startProcess_def restart_facts initial_page_def)
  have s: "start restart_world = Some (snd (step_navigateToProfile ?w3))"
    unfolding start_def Let_def getState_cache split_conv navigate_fails [OF a m]
    by (simp add: restart_facts defaultState_def)
  show ?thesis
    unfolding s navigate_fails [OF a m]
    by (simp add: handleError_canonical startProcess_def restart_facts running_bg_def
        status_msg_def initial_page_def merged_start received_def tabs_of_def)
qed

text \<open>
  Claim C1, amended. \<open>start()\<close> is a no-op whenever the cached replica of the content script
  says running: it changes nothing, sends nothing and starts no run. The guard is evaluated on
  the cache; no fresh read of the canonical state takes place.
\<close>

theorem start_ignored_when_cache_running:
  "isRunning (process (ss_state w)) \<Longrightarrow> start w = Some w"
  by (simp add: start_def)

theorem start_ignored_when_cache_running_witness:
  "isRunning (process (ss_state stale_world)) \<and> start stale_world = Some stale_world"
proof -
  have r: "isRunning (process (ss_state stale_world))"
    by (simp add: stale_world_def initial_world_def running_bg_def)
  from start_ignored_when_cache_running [OF r] r show ?thesis by simp
qed

section \<open>reset and the canonical state (claim C8)\<close>

text \<open>
  Claim C8. The mutation methods that go through \<open>update\<close> forward the delta they apply
  locally (\<open>update_keeps_equal\<close>, for a delta that holds no \<open>undefined\<close> value, as the deltas
  they build do). \<open>reset\<close> does not: it sets the cache to the default state and
  sends \<open>RESET_STATE\<close>, which the background answers with \<open>resetProcess(false)\<close>. That clears
  \<open>process\<close> and \<open>currentVideo\<close> only, and since it clears \<open>tabId\<close> before broadcasting, the
  content script gets no \<open>STATE_CHANGED\<close>. From equal states with 4 removed videos, the cache
  ends with 0 and the canonical state with 4.
\<close>

theorem reset_leaves_canonical_stats:
  "ss_state synced_world = canonical synced_world \<and>
   ss_state (reset synced_world) = defaultState \<and>
   removedVideos (stats (ss_state (reset synced_world))) = 0 \<and>
   stats (canonical (reset synced_world)) =
     \<lparr>totalReposts = 10, processedVideos = 4, removedVideos = 4, skippedVideos = 0\<rparr> \<and>
   ss_state (reset synced_world) \<noteq> canonical (reset synced_world)"
proof -
  have f: "reachable synced_world" "canonical synced_world = sm_state running_bg"
    "ss_state synced_world = sm_state running_bg" "myTab synced_world = 7"
    by (simp_all add: synced_world_def initial_world_def canonical_def)
  have c: "canonical (reset synced_world) =
      (sm_state running_bg)\<lparr>process := \<lparr>isRunning = False, isPaused = False, tabId = None,
         startTime = None\<rparr>, currentVideo := no_video\<rparr>"
    by (simp add: reset_def f received_def merged_reset_update)
  have s: "ss_state (reset synced_world) = defaultState"
    by (simp add: reset_def f pushed_def received_def merged_reset_update tabs_of_def)
  show ?thesis
    unfolding c s by (simp add: f running_bg_def defaultState_def zero_stats_def)
qed


section \<open>isPaused and isRunning (claim C4)\<close>




section \<open>The end of auto-scrolling (claim C6)\<close>




section \<open>Facts about the removal loop\<close>

lemma polls_unique:
  assumes "ms \<le> 100 * int n" and "100 * int n < ms + 100"
  shows "sleep_polls ms = n"
proof -
  have "(ms + 99) div 100 = int n"
    by (rule int_div_pos_eq [where r = "ms + 99 - 100 * int n"]) (use assms in auto)
  then show ?thesis by (simp add: sleep_polls_def)
qed

lemma pausableSleep_running:
  assumes "isRunning (process (ss_state w))" and "\<not> isPaused (process (ss_state w))"
  shows "pausableSleep ms w = Some (sleep (100 * int (sleep_polls ms)) w)"
proof -
  from pausableSleep_from_running [OF assms, of ms 0] obtain n where
    s: "pausableSleep_from ms 0 w = Some (sleep (100 * int n) w)"
    and z: "ms \<le> 0 \<longrightarrow> n = 0"
    and b: "0 < ms \<longrightarrow> ms \<le> 100 * int n \<and> 100 * int n < ms + 100"
    by auto
  have "sleep_polls ms = n"
  proof (cases "0 < ms")
    case True
    with b show ?thesis by (intro polls_unique) simp_all
  next
    case False
    with z have "n = 0" by simp
    moreover from False have "(ms + 99) div 100 \<le> 0"
      using zdiv_mono1 [of "ms + 99" 99 100] by simp
    ultimately show ?thesis by (simp add: sleep_polls_def)
  qed
  with s show ?thesis by (simp add: pausableSleep_def)
qed

lemma waitForElement_present:
  "present (page_at w (clock w)) k \<Longrightarrow> waitForElement k t w = (True, w)"
  unfolding waitForElement_def by (subst wait_check.simps) (simp add: page_now_def)


lemma received_status [simp]: "received now (STATUS_UPDATE x) s = s"
  by (simp add: received_def)

lemma received_progress [simp]:
  "received now (UPDATE_PROGRESS c n x) s =
     s\<lparr>stats := (stats s)\<lparr>totalReposts := n, processedVideos := c\<rparr>\<rparr>"
  by (simp add: received_def merged_progress)

lemma received_removed [simp]:
  "received now (VIDEO_REMOVED v) s =
     s\<lparr>stats := (stats s)\<lparr>removedVideos := removedVideos (stats s) + 1\<rparr>,
       removedList := removedList s @
         [\<lparr>title = title v, url = url v, author = author v, index = index v, removedAt = now\<rparr>]\<rparr>"
  using merged_removed [of s "removedVideos (stats s) + 1" "removedList s @
         [\<lparr>title = title v, url = url v, author = author v, index = index v, removedAt = now\<rparr>]"]
  by (simp add: received_def)

lemma going_send:
  assumes "going w"
    and "process (received (clock w) (on_the_wire m) (canonical w)) = process (canonical w)"
  shows "going (snd (runtime_sendMessage m w))"
  using assms
  by (auto simp: going_def steady_def all_reposts_def pushed_def received_def split: option.splits)

lemma going_status [simp]: "going w \<Longrightarrow> going (snd (runtime_sendMessage (STATUS_UPDATE x) w))"
  by (rule going_send) simp_all

lemma going_progress [simp]:
  "going w \<Longrightarrow> going (snd (runtime_sendMessage (UPDATE_PROGRESS c n x) w))"
  by (rule going_send) simp_all

lemma going_removed [simp]: "going w \<Longrightarrow> going (snd (runtime_sendMessage (VIDEO_REMOVED v) w))"
  by (rule going_send) simp_all

lemma going_video [simp]: "going w \<Longrightarrow> going (setCurrentVideo v w)"
  by (simp add: going_def steady_def all_reposts_def setCurrentVideo_def merged_video)

lemma canonical_video [simp]:
  "canonical (setCurrentVideo v w) =
     (if reachable w then (canonical w)\<lparr>currentVideo := v\<rparr> else canonical w)"
  by (simp add: setCurrentVideo_def merged_video)

lemma going_click [simp]: "going (click_element k w) = going w"
  by (simp add: going_def steady_def all_reposts_def click_element_def)

lemma going_sleep [simp]: "going (sleep ms w) = going w"
  by (simp add: going_def steady_def all_reposts_def sleep_def)

lemma going_delay [simp]: "going (snd (getRandomDelay lo hi w)) = going w"
  by (simp add: going_def steady_def all_reposts_def getRandomDelay_def random_below_def)

lemma canonical_click [simp]: "canonical (click_element k w) = canonical w"
  by (simp add: click_element_def)

lemma canonical_sleep [simp]: "canonical (sleep ms w) = canonical w"
  by (simp add: sleep_def)

lemma canonical_delay [simp]: "canonical (snd (getRandomDelay lo hi w)) = canonical w"
  by (simp add: getRandomDelay_def random_below_def)

lemma reachable_steps [simp]:
  "reachable (setCurrentVideo v w) = reachable w"
  "reachable (click_element k w) = reachable w"
  "reachable (sleep ms w) = reachable w"
  "reachable (snd (getRandomDelay lo hi w)) = reachable w"
  by (simp_all add: setCurrentVideo_def click_element_def sleep_def getRandomDelay_def
        random_below_def)

lemma removals_steps [simp]:
  "removals (snd (runtime_sendMessage m w)) = removals w"
  "removals (setCurrentVideo v w) = removals w"
  "removals (click_element k w) =
     (if k = ''video.repostButton'' then Suc (removals w) else removals w)"
  "removals (sleep ms w) = removals w"
  "removals (snd (getRandomDelay lo hi w)) = removals w"
  by (simp_all add: removals_def setCurrentVideo_def click_element_def sleep_def
        getRandomDelay_def random_below_def)

lemma errors_steps [simp]:
  "errors (snd (runtime_sendMessage m w)) = (if is_error m then Suc (errors w) else errors w)"
  "errors (setCurrentVideo v w) = errors w"
  "errors (click_element k w) = errors w"
  "errors (sleep ms w) = errors w"
  "errors (snd (getRandomDelay lo hi w)) = errors w"
  by (simp_all add: errors_def setCurrentVideo_def click_element_def sleep_def
        getRandomDelay_def random_below_def)

lemma going_facts:
  assumes "going w"
  shows "checkPauseState w = Some w"
    and "isRunning (process (ss_state w))"
    and "isRunning (process (canonical w))"
    and "ss_state w = canonical w"
    and "reachable w"
    and "waitForElement ''video.repostButton'' t w = (True, w)"
    and "waitForElement ''video.nextButton'' t w = (True, w)"
    and "isVideoReposted w"
    and "\<not> nextDisabled (page_now w)"
    and "pausableSleep ms w = Some (sleep (100 * int (sleep_polls ms)) w)"
proof -
  from assms have s: "ss_state w = canonical w" "isRunning (process (canonical w))"
    "\<not> isPaused (process (canonical w))" "reachable w"
    and p: "all_reposts w"
    by (simp_all add: going_def steady_def)
  from s show "checkPauseState w = Some w"
    by (simp add: checkPauseState_eq blocked_def)
  from s show "isRunning (process (ss_state w))" "isRunning (process (canonical w))"
    "ss_state w = canonical w" "reachable w"
    by simp_all
  from p show "waitForElement ''video.repostButton'' t w = (True, w)"
    by (intro waitForElement_present) (simp add: all_reposts_def)
  from p show "waitForElement ''video.nextButton'' t w = (True, w)"
    by (intro waitForElement_present) (simp add: all_reposts_def)
  from p show "isVideoReposted w" "\<not> nextDisabled (page_now w)"
    by (simp_all add: all_reposts_def isVideoReposted_def page_now_def)
  from s show "pausableSleep ms w = Some (sleep (100 * int (sleep_polls ms)) w)"
    by (intro pausableSleep_running) simp_all
qed

lemma js_or_zero [simp]: "js_or x 0 = x"
  by (simp add: js_or_def)

lemma loop_limit:
  assumes "going w" and "ci < totalReposts (stats (canonical w))" and "m \<le> rc"
  shows "processVideoQueue_loop ci rc m w =
     Some (LimitReached, rc,
       broadcast (status_msg ''Daily limit reached'' ''statusDailyLimitReached'' []) w)"
  using assms
  by (subst processVideoQueue_loop.simps) (simp add: going_facts)


lemma loop_iteration:
  assumes g: "going w" and t: "ci < totalReposts (stats (canonical w))" and r: "rc < m"
  shows "\<exists>w'. processVideoQueue_loop ci rc m w = processVideoQueue_loop (ci + 1) (rc + 1) m w' \<and>
     going w' \<and>
     totalReposts (stats (canonical w')) = totalReposts (stats (canonical w)) \<and>
     removedVideos (stats (canonical w')) = removedVideos (stats (canonical w)) + 1 \<and>
     removals w' = Suc (removals w) \<and> errors w' = errors w"
proof -
  have d: "max (ci + 1) (totalReposts (stats (canonical w))) = totalReposts (stats (canonical w))"
    using t by simp
  have n: "\<not> m \<le> rc" "\<not> totalReposts (stats (canonical w)) \<le> ci"
    using t r by simp_all
  consider (long) "(ci + 1) mod 35 = 0"
    | (short) "(ci + 1) mod 35 \<noteq> 0" "(ci + 1) mod 10 = 0"
    | (none) "(ci + 1) mod 35 \<noteq> 0" "(ci + 1) mod 10 \<noteq> 0"
    by blast
  then show ?thesis
  proof cases
    case long
    show ?thesis
      apply (subst processVideoQueue_loop.simps)
      apply (simp add: going_facts g n d long Let_def split_beta status_msg_def)
      apply (rule exI, rule conjI, rule refl)
      apply (simp add: going_facts g)
      done
  next
    case short
    show ?thesis
      apply (subst processVideoQueue_loop.simps)
      apply (simp add: going_facts g n d short Let_def split_beta status_msg_def)
      apply (rule exI, rule conjI, rule refl)
      apply (simp add: going_facts g)
      done
  next
    case none
    show ?thesis
      apply (subst processVideoQueue_loop.simps)
      apply (simp add: going_facts g n d none Let_def split_beta status_msg_def)
      apply (rule exI, rule conjI, rule refl)
      apply (simp add: going_facts g)
      done
  qed
qed

lemma loop_run:
  assumes "going w" and "rc \<le> m" and "ci + (m - rc) < totalReposts (stats (canonical w))"
  shows "\<exists>w'. processVideoQueue_loop ci rc m w =
       Some (LimitReached, m,
         broadcast (status_msg ''Daily limit reached'' ''statusDailyLimitReached'' []) w') \<and>
     going w' \<and>
     removedVideos (stats (canonical w')) = removedVideos (stats (canonical w)) + (m - rc) \<and>
     removals w' = removals w + nat (m - rc) \<and> errors w' = errors w"
  using assms
proof (induction "nat (m - rc)" arbitrary: ci rc w)
  case 0
  then have e: "rc = m" by simp
  with 0 have "processVideoQueue_loop ci rc m w =
     Some (LimitReached, rc,
       broadcast (status_msg ''Daily limit reached'' ''statusDailyLimitReached'' []) w)"
    by (intro loop_limit) simp_all
  with e 0 show ?case by (intro exI [of _ w]) simp
next
  case (Suc k)
  from Suc.hyps(2) have lt: "rc < m" by simp
  from Suc.prems lt have ci: "ci < totalReposts (stats (canonical w))" by simp
  from loop_iteration [OF Suc.prems(1) ci lt] obtain w1 where
    s: "processVideoQueue_loop ci rc m w = processVideoQueue_loop (ci + 1) (rc + 1) m w1"
    and g: "going w1"
    and t: "totalReposts (stats (canonical w1)) = totalReposts (stats (canonical w))"
    and v: "removedVideos (stats (canonical w1)) = removedVideos (stats (canonical w)) + 1"
    and a: "removals w1 = Suc (removals w)" and e: "errors w1 = errors w"
    by blast
  have k: "k = nat (m - (rc + 1))" using Suc.hyps(2) by simp
  have le: "rc + 1 \<le> m" using lt by simp
  have b: "ci + 1 + (m - (rc + 1)) < totalReposts (stats (canonical w1))"
    using Suc.prems(3) t by simp
  from Suc.hyps(1) [OF k g le b] obtain w2 where
    s2: "processVideoQueue_loop (ci + 1) (rc + 1) m w1 =
       Some (LimitReached, m,
         broadcast (status_msg ''Daily limit reached'' ''statusDailyLimitReached'' []) w2)"
    and g2: "going w2"
    and v2: "removedVideos (stats (canonical w2)) =
       removedVideos (stats (canonical w1)) + (m - (rc + 1))"
    and a2: "removals w2 = removals w1 + nat (m - (rc + 1))" and e2: "errors w2 = errors w1"
    by blast
  have "removals w2 = removals w + nat (m - rc)"
    using a a2 lt by simp
  moreover have "removedVideos (stats (canonical w2)) =
       removedVideos (stats (canonical w)) + (m - rc)"
    using v v2 by simp
  ultimately show ?case
    using s s2 g2 e e2 by (intro exI [of _ w2]) simp
qed

lemma maxRemoval_stored:
  "quotaInfo w = Some q \<Longrightarrow> remaining q = Some n \<Longrightarrow> maxRemoval w = js_or n 100"
  by (simp add: maxRemoval_def getQuotaInfo_def remaining_or_def)

lemma queue_world_facts:
  "going (queue_world n r)"
  "quotaInfo (queue_world n r) = Some \<lparr>remaining = Some r, daily_limit = 100, is_premium = False\<rparr>"
  "totalReposts (stats (canonical (queue_world n r))) = n"
  "removedVideos (stats (canonical (queue_world n r))) = 0"
  "removals (queue_world n r) = 0"
  "errors (queue_world n r) = 0"
  by (simp_all add: going_def steady_def all_reposts_def canonical_def queue_world_def
        queue_state_def initial_world_def player_page_def initial_page_def tabs_of_def
        defaultState_def zero_stats_def removals_def errors_def)

lemma limit_exit:
  "removals (broadcast (status_msg k s p) w) = removals w"
  "errors (broadcast (status_msg k s p) w) = errors w"
  "canonical (broadcast (status_msg k s p) w) = canonical w"
  "last (sent (broadcast (status_msg k s p) w)) = (status_msg k s p, clock (broadcast (status_msg k s p) w))"
  by (simp_all add: status_msg_def)

section \<open>The quota cap of the removal loop (claim C3)\<close>

text \<open>
  Claim C3. Let the loop start in a steady state (the cache equals the canonical state, which is
  running, not paused and names this tab, and the background can be reached), on a list whose
  items all test as reposts, with a stored quota snapshot of \<open>n > 0\<close> removals remaining and
  more than \<open>n\<close> loaded items. Then the cap is \<open>n\<close>, and the loop returns through its
  limit-reached exit with a removed count of \<open>n\<close>: it has clicked the repost button exactly
  \<open>n\<close> times, the canonical count of removed videos has grown by \<open>n\<close>, no error message was
  sent, and the last message sent is the status ``Daily limit reached''. The step then closes
  the player and returns. The claim's instance is \<open>n = 3\<close> with 10 loaded items.
\<close>

theorem quota_cap_respected:
  assumes "going w" and "quotaInfo w = Some q" and "remaining q = Some n" and "0 < n"
    and "n < totalReposts (stats (canonical w))"
  shows "maxRemoval w = n \<and>
    (\<exists>w'. processVideoQueue_loop 0 0 (maxRemoval w) w = Some (LimitReached, n, w') \<and>
       step_processVideoQueue w = Some (close_player w') \<and>
       removals w' = removals w + nat n \<and>
       removedVideos (stats (canonical w')) = removedVideos (stats (canonical w)) + n \<and>
       errors w' = errors w \<and>
       last (sent w') =
         (status_msg ''Daily limit reached'' ''statusDailyLimitReached'' [], clock w'))"
proof -
  have m: "maxRemoval w = n"
    using maxRemoval_stored [OF assms(2,3)] assms(4) by (simp add: js_or_def)
  from loop_run [OF assms(1), of 0 n 0] assms(4,5) obtain w1 where
    s: "processVideoQueue_loop 0 0 n w =
       Some (LimitReached, n,
         broadcast (status_msg ''Daily limit reached'' ''statusDailyLimitReached'' []) w1)"
    and v: "removedVideos (stats (canonical w1)) = removedVideos (stats (canonical w)) + n"
    and a: "removals w1 = removals w + nat n" and e: "errors w1 = errors w"
    by auto
  let ?w = "broadcast (status_msg ''Daily limit reached'' ''statusDailyLimitReached'' []) w1"
  have "step_processVideoQueue w = Some (close_player ?w)"
    by (simp only: step_processVideoQueue_def m s) simp
  moreover have "removals ?w = removals w + nat n" "errors ?w = errors w"
    "removedVideos (stats (canonical ?w)) = removedVideos (stats (canonical w)) + n"
    "last (sent ?w) =
       (status_msg ''Daily limit reached'' ''statusDailyLimitReached'' [], clock ?w)"
    using v a e by (simp_all only: limit_exit)
  ultimately show ?thesis
    using m s by (intro conjI exI [of _ ?w]) simp_all
qed

text \<open>The claim's instance: 10 loaded reposts and 3 removals remaining.\<close>

theorem quota_cap_respected_witness:
  "going (queue_world 10 3) \<and> maxRemoval (queue_world 10 3) = 3 \<and>
   (\<exists>w'. processVideoQueue_loop 0 0 3 (queue_world 10 3) = Some (LimitReached, 3, w') \<and>
      removals w' = 3 \<and> removedVideos (stats (canonical w')) = 3 \<and> errors w' = 0 \<and>
      fst (last (sent w')) = status_msg ''Daily limit reached'' ''statusDailyLimitReached'' [])"
proof -
  from quota_cap_respected [of "queue_world 10 3"
      "\<lparr>remaining = Some 3, daily_limit = 100, is_premium = False\<rparr>" 3]
  obtain w' where "maxRemoval (queue_world 10 3) = 3"
    and "processVideoQueue_loop 0 0 3 (queue_world 10 3) = Some (LimitReached, 3, w')"
    and "removals w' = 3" and "removedVideos (stats (canonical w')) = 3" and "errors w' = 0"
    and "last (sent w') =
         (status_msg ''Daily limit reached'' ''statusDailyLimitReached'' [], clock w')"
    by (auto simp: queue_world_facts)
  then show ?thesis
    by (intro conjI exI [of _ w']) (simp_all add: queue_world_facts)
qed

section \<open>An exhausted quota (claim C10)\<close>

text \<open>
  Claim C10. When the stored quota snapshot reports 0 removals remaining, the cap of the loop is
  100, since \<open>quotaInfo.remaining || 100\<close> takes the default for the falsy 0. And then the loop
  does remove 100 items: started in a steady state on a list of more than 100 loaded items that
  all test as reposts, it returns through its limit-reached exit after exactly 100 clicks on the
  repost button.
\<close>

theorem exhausted_quota_allows_100:
  assumes "quotaInfo w = Some q" and "remaining q = Some 0"
  shows "maxRemoval w = 100 \<and>
    (going w \<and> 100 < totalReposts (stats (canonical w)) \<longrightarrow>
      (\<exists>w'. processVideoQueue_loop 0 0 (maxRemoval w) w = Some (LimitReached, 100, w') \<and>
         removals w' = removals w + 100 \<and>
         removedVideos (stats (canonical w')) = removedVideos (stats (canonical w)) + 100))"
proof -
  have m: "maxRemoval w = 100"
    using maxRemoval_stored [OF assms] by (simp add: js_or_def)
  have "\<exists>w'. processVideoQueue_loop 0 0 100 w = Some (LimitReached, 100, w') \<and>
         removals w' = removals w + 100 \<and>
         removedVideos (stats (canonical w')) = removedVideos (stats (canonical w)) + 100"
    if g: "going w" and t: "100 < totalReposts (stats (canonical w))"
  proof -
    from loop_run [OF g, of 0 100 0] t obtain w1 where
      s: "processVideoQueue_loop 0 0 100 w =
         Some (LimitReached, 100,
           broadcast (status_msg ''Daily limit reached'' ''statusDailyLimitReached'' []) w1)"
      and v: "removedVideos (stats (canonical w1)) = removedVideos (stats (canonical w)) + 100"
      and a: "removals w1 = removals w + 100"
      by auto
    let ?w = "broadcast (status_msg ''Daily limit reached'' ''statusDailyLimitReached'' []) w1"
    have "removals ?w = removals w + 100"
      "removedVideos (stats (canonical ?w)) = removedVideos (stats (canonical w)) + 100"
      using v a by (simp_all only: limit_exit)
    with s show ?thesis by (intro exI [of _ ?w]) simp
  qed
  with m show ?thesis by simp
qed

text \<open>An instance: 150 loaded reposts and a quota snapshot with 0 removals remaining.\<close>

theorem exhausted_quota_allows_100_witness:
  "remaining \<lparr>remaining = Some 0, daily_limit = 100, is_premium = False\<rparr> = Some 0 \<and>
   maxRemoval (queue_world 150 0) = 100 \<and>
   (\<exists>w'. processVideoQueue_loop 0 0 100 (queue_world 150 0) = Some (LimitReached, 100, w') \<and>
      removals w' = 100 \<and> removedVideos (stats (canonical w')) = 100)"
proof -
  from exhausted_quota_allows_100 [of "queue_world 150 0"
      "\<lparr>remaining = Some 0, daily_limit = 100, is_premium = False\<rparr>"]
  obtain w' where "maxRemoval (queue_world 150 0) = 100"
    and "processVideoQueue_loop 0 0 100 (queue_world 150 0) = Some (LimitReached, 100, w')"
    and "removals w' = 100" and "removedVideos (stats (canonical w')) = 100"
    by (auto simp: queue_world_facts)
  then show ?thesis
    by (intro conjI exI [of _ w']) simp_all
qed

end
